theory Spec2Isabelle
  imports Complex_Main
begin

section \<open>Tensors\<close>

text \<open>
  The program is \<^verbatim>\<open>rope.py\<close>: two functions over \<^verbatim>\<open>torch.Tensor\<close>. A tensor is
  modelled by its shape, its element type and its elements in row-major order. The
  elements are real numbers: the model computes in exact arithmetic, so rounding to
  32-bit floats, infinities and NaN are outside it. Shapes, element types and raised
  errors are modelled exactly as the tensor library decides them.
\<close>

datatype dtype =
  Bool | UInt8 | Int8 | Int16 | Int32 | Int64 | Float16 | BFloat16 | Float32 | Float64

datatype error = ValueError | IndexError | RuntimeError | AssertionError

record tensor =
  shape :: "nat list"
  dtype :: dtype
  data :: "real list"

definition numel :: "tensor \<Rightarrow> nat" where
  "numel t = prod_list (shape t)"

text \<open>A tensor is well formed when it holds one element per position of its shape.\<close>

definition wf_tensor :: "tensor \<Rightarrow> bool" where
  "wf_tensor t = (length (data t) = prod_list (shape t))"

text \<open>Sequencing of steps that may raise: the first error aborts the rest.\<close>

definition ebind :: "error + 'a \<Rightarrow> ('a \<Rightarrow> error + 'b) \<Rightarrow> error + 'b" where
  "ebind m f = (case m of Inl e \<Rightarrow> Inl e | Inr x \<Rightarrow> f x)"

subsection \<open>Row-major indexing\<close>

fun ravel :: "nat list \<Rightarrow> nat list \<Rightarrow> nat" where
  "ravel (d # ds) (i # is) = i * prod_list ds + ravel ds is"
| "ravel _ _ = 0"

fun unravel :: "nat list \<Rightarrow> nat \<Rightarrow> nat list" where
  "unravel [] n = []"
| "unravel (d # ds) n = (n div prod_list ds) # unravel ds (n mod prod_list ds)"

text \<open>\<open>item t idx\<close> is \<^verbatim>\<open>t[idx]\<close> for a full multi-index within the shape.\<close>

definition item :: "tensor \<Rightarrow> nat list \<Rightarrow> real" where
  "item t idx = data t ! ravel (shape t) idx"

subsection \<open>Element types\<close>

definition is_floating :: "dtype \<Rightarrow> bool" where
  "is_floating d = (d = Float16 \<or> d = BFloat16 \<or> d = Float32 \<or> d = Float64)"

fun int_bits :: "dtype \<Rightarrow> nat" where
  "int_bits Int8 = 8"
| "int_bits Int16 = 16"
| "int_bits Int32 = 32"
| "int_bits Int64 = 64"
| "int_bits _ = 0"

text \<open>\<^verbatim>\<open>torch.promote_types\<close> on the element types above.\<close>

definition promote_types :: "dtype \<Rightarrow> dtype \<Rightarrow> dtype" where
  "promote_types a b =
     (if a = b then a
      else if a = Bool then b
      else if b = Bool then a
      else if is_floating a \<and> is_floating b then
        (if a = Float64 \<or> b = Float64 then Float64 else Float32)
      else if is_floating a then a
      else if is_floating b then b
      else if a = UInt8 then (if b = Int8 then Int16 else b)
      else if b = UInt8 then (if a = Int8 then Int16 else a)
      else if int_bits a < int_bits b then b else a)"

text \<open>
  The element type of an operation between a tensor and a Python float, or of a true
  division by a Python number: a floating tensor keeps its type, any other tensor takes
  the default type \<^verbatim>\<open>torch.float32\<close>.
\<close>

definition scalar_result :: "dtype \<Rightarrow> dtype" where
  "scalar_result d = (if is_floating d then d else Float32)"

subsection \<open>Tensor operations used by the program\<close>

text \<open>
  \<^verbatim>\<open>t.float()\<close>: the tensor with the element type \<^verbatim>\<open>torch.float32\<close>. The conversion
  keeps every element of a tensor whose element type \<open>float_exact\<close> accepts: the values
  of these types are values of \<^verbatim>\<open>float32\<close>. For \<open>Int32\<close>, \<open>Int64\<close> and \<open>Float64\<close> the
  program rounds the elements that \<^verbatim>\<open>float32\<close> does not represent (the integer
  \<open>16777217\<close> becomes \<open>16777216\<close>); the model, which computes in exact arithmetic, does
  not round, so a statement that compares the elements of an output with the elements of
  an input as they were before the conversion is made for the exact element types only.
\<close>

definition float_exact :: "dtype \<Rightarrow> bool" where
  "float_exact d =
     (d = Bool \<or> d = UInt8 \<or> d = Int8 \<or> d = Int16 \<or> d = Float16 \<or> d = BFloat16 \<or> d = Float32)"

definition float_t :: "tensor \<Rightarrow> tensor" where
  "float_t t = t\<lparr>dtype := Float32\<rparr>"

text \<open>
  The size inference of \<^verbatim>\<open>reshape\<close> and \<^verbatim>\<open>view\<close>: at most one entry \<open>-1\<close>, no
  other negative entry; the known sizes must multiply to the number of elements, or
  divide it when one size is inferred; the inferred size is ambiguous, and refused, when
  the known sizes multiply to zero.
\<close>

definition infer_size :: "int list \<Rightarrow> nat \<Rightarrow> error + nat list" where
  "infer_size shp n =
     (let newsize = nat (prod_list (filter (\<lambda>d. 0 \<le> d) shp));
          infer = (count_list shp (- 1) = 1)
      in if 1 < count_list shp (- 1) then Inl RuntimeError
         else if list_ex (\<lambda>d. d < - 1) shp then Inl RuntimeError
         else if n = newsize \<or> (infer \<and> 0 < newsize \<and> n mod newsize = 0) then
           (if infer then
              (if newsize = 0 then Inl RuntimeError
               else Inr (map (\<lambda>d. if d = - 1 then n div newsize else nat d) shp))
            else Inr (map nat shp))
         else Inl RuntimeError)"

text \<open>\<^verbatim>\<open>t.reshape(shp)\<close> and, on the contiguous tensors of this model, \<^verbatim>\<open>t.view(shp)\<close>\<close>

definition reshape :: "tensor \<Rightarrow> int list \<Rightarrow> error + tensor" where
  "reshape t shp = ebind (infer_size shp (numel t)) (\<lambda>s. Inr (t\<lparr>shape := s\<rparr>))"

text \<open>\<^verbatim>\<open>t.unbind(-1)\<close>: the slices of \<open>t\<close> along its last axis.\<close>

definition unbind_last :: "tensor \<Rightarrow> error + tensor list" where
  "unbind_last t =
     (case rev (shape t) of
        [] \<Rightarrow> Inl IndexError
      | k # rs \<Rightarrow>
          Inr (map (\<lambda>j. \<lparr>shape = rev rs, dtype = dtype t,
                         data = map (\<lambda>n. data t ! (n * k + j)) [0..<prod_list rs]\<rparr>)
                   [0..<k]))"

text \<open>The tuple assignment \<^verbatim>\<open>a, b = ts\<close>\<close>

definition unpack2 :: "'a list \<Rightarrow> error + ('a \<times> 'a)" where
  "unpack2 ts = (case ts of [a, b] \<Rightarrow> Inr (a, b) | _ \<Rightarrow> Inl ValueError)"

text \<open>\<^verbatim>\<open>torch.arange(start, stop, step)\<close> on Python integers\<close>

definition arange :: "int \<Rightarrow> int \<Rightarrow> int \<Rightarrow> error + tensor" where
  "arange start stop step =
     (if step = 0 then Inl RuntimeError
      else if (0 < step \<and> start \<le> stop) \<or> (step < 0 \<and> stop \<le> start) then
        (let n = nat (- ((start - stop) div step))
         in Inr \<lparr>shape = [n], dtype = Int64,
                 data = map (\<lambda>i. real_of_int (start + int i * step)) [0..<n]\<rparr>)
      else Inl RuntimeError)"

text \<open>\<^verbatim>\<open>t / c\<close>, \<^verbatim>\<open>c ** t\<close> and \<^verbatim>\<open>c / t\<close> for a Python number \<open>c\<close>\<close>

definition div_scalar :: "tensor \<Rightarrow> real \<Rightarrow> tensor" where
  "div_scalar t c = t\<lparr>dtype := scalar_result (dtype t), data := map (\<lambda>x. x / c) (data t)\<rparr>"

definition rpow_scalar :: "real \<Rightarrow> tensor \<Rightarrow> tensor" where
  "rpow_scalar c t = t\<lparr>dtype := scalar_result (dtype t), data := map (\<lambda>x. c powr x) (data t)\<rparr>"

definition rdiv_scalar :: "real \<Rightarrow> tensor \<Rightarrow> tensor" where
  "rdiv_scalar c t = t\<lparr>dtype := scalar_result (dtype t), data := map (\<lambda>x. c / x) (data t)\<rparr>"

text \<open>\<^verbatim>\<open>t.unsqueeze(axis)\<close> for a non-negative \<open>axis\<close>\<close>

definition unsqueeze :: "tensor \<Rightarrow> nat \<Rightarrow> error + tensor" where
  "unsqueeze t axis =
     (if axis \<le> length (shape t)
      then Inr (t\<lparr>shape := take axis (shape t) @ [1] @ drop axis (shape t)\<rparr>)
      else Inl IndexError)"

text \<open>\<^verbatim>\<open>torch.sin(t)\<close> and \<^verbatim>\<open>torch.cos(t)\<close>\<close>

definition tsin :: "tensor \<Rightarrow> tensor" where
  "tsin t = t\<lparr>dtype := scalar_result (dtype t), data := map sin (data t)\<rparr>"

definition tcos :: "tensor \<Rightarrow> tensor" where
  "tcos t = t\<lparr>dtype := scalar_result (dtype t), data := map cos (data t)\<rparr>"

text \<open>The indexing \<^verbatim>\<open>t[None, :, None, :]\<close>\<close>

definition index_none_all_none_all :: "tensor \<Rightarrow> error + tensor" where
  "index_none_all_none_all t =
     (case shape t of
        a # b # rest \<Rightarrow> Inr (t\<lparr>shape := [1, a, 1, b] @ rest\<rparr>)
      | _ \<Rightarrow> Inl IndexError)"

text \<open>
  Broadcasting. The shapes are aligned at their last axes; two sizes fit when they are
  equal or one of them is 1.
\<close>

fun broadcast_rev :: "nat list \<Rightarrow> nat list \<Rightarrow> error + nat list" where
  "broadcast_rev [] ys = Inr ys"
| "broadcast_rev (x # xs) [] = Inr (x # xs)"
| "broadcast_rev (x # xs) (y # ys) =
     (if x = y \<or> x = 1 \<or> y = 1
      then ebind (broadcast_rev xs ys) (\<lambda>r. Inr ((if x = 1 then y else x) # r))
      else Inl RuntimeError)"

definition broadcast_shapes :: "nat list \<Rightarrow> nat list \<Rightarrow> error + nat list" where
  "broadcast_shapes a b = ebind (broadcast_rev (rev a) (rev b)) (\<lambda>r. Inr (rev r))"

text \<open>
  The position, in a tensor of shape \<open>s\<close>, of the element that broadcasting puts at
  position \<open>n\<close> of the result of shape \<open>os\<close>: leading axes of the result that \<open>s\<close> lacks
  are dropped, and an axis of size 1 is read at index 0.
\<close>

definition bcast_index :: "nat list \<Rightarrow> nat list \<Rightarrow> nat \<Rightarrow> nat" where
  "bcast_index s os n =
     ravel s (map2 (\<lambda>d j. if d = 1 then 0 else j) s (drop (length os - length s) (unravel os n)))"

text \<open>An elementwise operation \<^verbatim>\<open>a * b\<close>, \<^verbatim>\<open>a - b\<close>, \<^verbatim>\<open>a + b\<close> of two tensors of rank at least 1\<close>

definition tensor_binop :: "(real \<Rightarrow> real \<Rightarrow> real) \<Rightarrow> tensor \<Rightarrow> tensor \<Rightarrow> error + tensor" where
  "tensor_binop f a b =
     ebind (broadcast_shapes (shape a) (shape b)) (\<lambda>os.
       Inr \<lparr>shape = os, dtype = promote_types (dtype a) (dtype b),
            data = map (\<lambda>n. f (data a ! bcast_index (shape a) os n)
                              (data b ! bcast_index (shape b) os n))
                       [0..<prod_list os]\<rparr>)"

definition tmul :: "tensor \<Rightarrow> tensor \<Rightarrow> error + tensor" where
  "tmul = tensor_binop (*)"

definition tsub :: "tensor \<Rightarrow> tensor \<Rightarrow> error + tensor" where
  "tsub = tensor_binop (-)"

definition tadd :: "tensor \<Rightarrow> tensor \<Rightarrow> error + tensor" where
  "tadd = tensor_binop (+)"

text \<open>\<^verbatim>\<open>torch.stack(ts, dim=-1)\<close>: the tensors must have one shape; a new last axis indexes them.\<close>

definition stack_last :: "tensor list \<Rightarrow> error + tensor" where
  "stack_last ts =
     (case ts of
        [] \<Rightarrow> Inl RuntimeError
      | t # rest \<Rightarrow>
          if list_all (\<lambda>u. shape u = shape t) rest
          then Inr \<lparr>shape = shape t @ [length ts],
                    dtype = fold (\<lambda>u d. promote_types d (dtype u)) rest (dtype t),
                    data = map (\<lambda>n. data (ts ! (n mod length ts)) ! (n div length ts))
                               [0..<prod_list (shape t) * length ts]\<rparr>
          else Inl RuntimeError)"

section \<open>The program\<close>

text \<open>
  \<^verbatim>\<open>reshape_for_broadcast(freqs_cis, x)\<close>: two assertions, the shape that keeps axis 1
  and the last axis of \<open>x\<close>, and the view of \<open>freqs_cis\<close> under that shape.
\<close>

definition reshape_for_broadcast :: "tensor \<Rightarrow> tensor \<Rightarrow> error + tensor" where
  "reshape_for_broadcast freqs_cis x =
     (let ndim = length (shape x)
      in if \<not> 1 < ndim then Inl AssertionError
         else if shape freqs_cis \<noteq> [shape x ! 1, last (shape x)] then Inl AssertionError
         else reshape freqs_cis
                (map (\<lambda>(i, d). if i = 1 \<or> i = ndim - 1 then int d else 1)
                     (enumerate 0 (shape x))))"

text \<open>
  \<^verbatim>\<open>apply_rotary_emb(query, key, head_dim, max_seq_len, theta)\<close>, statement by
  statement. \<open>theta ** x\<close> is \<open>theta powr x\<close>, which is the power of the program for a
  positive \<open>theta\<close>.
\<close>

definition apply_rotary_emb ::
  "tensor \<Rightarrow> tensor \<Rightarrow> int \<Rightarrow> int \<Rightarrow> real \<Rightarrow> error + (tensor \<times> tensor)" where
  "apply_rotary_emb query key head_dim max_seq_len theta =
     (case shape query of
        [_, seqlen, _, _] \<Rightarrow>
          ebind (reshape (float_t query) (map int (butlast (shape query)) @ [- 1, 2])) (\<lambda>qc.
          ebind (unbind_last qc) (\<lambda>qs.
          ebind (unpack2 qs) (\<lambda>(query_real, query_imag).
          ebind (reshape (float_t key) (map int (butlast (shape key)) @ [- 1, 2])) (\<lambda>kc.
          ebind (unbind_last kc) (\<lambda>ks.
          ebind (unpack2 ks) (\<lambda>(key_real, key_imag).
          ebind (arange 0 head_dim 2) (\<lambda>ar.
          let inv_freq = rdiv_scalar 1 (rpow_scalar theta (div_scalar (float_t ar) (real_of_int head_dim)))
          in
          ebind (arange 0 (int seqlen) 1) (\<lambda>pr.
          ebind (unsqueeze pr 1) (\<lambda>positions.
          ebind (tmul positions inv_freq) (\<lambda>angles.
          ebind (index_none_all_none_all (tsin angles)) (\<lambda>sin_angles.
          ebind (index_none_all_none_all (tcos angles)) (\<lambda>cos_angles.
          ebind (tmul query_real cos_angles) (\<lambda>qrc.
          ebind (tmul query_imag sin_angles) (\<lambda>qis.
          ebind (tsub qrc qis) (\<lambda>query_rotated_real.
          ebind (tmul query_real sin_angles) (\<lambda>qrs.
          ebind (tmul query_imag cos_angles) (\<lambda>qic.
          ebind (tadd qrs qic) (\<lambda>query_rotated_imag.
          ebind (tmul key_real cos_angles) (\<lambda>krc.
          ebind (tmul key_imag sin_angles) (\<lambda>kis.
          ebind (tsub krc kis) (\<lambda>key_rotated_real.
          ebind (tmul key_real sin_angles) (\<lambda>krs.
          ebind (tmul key_imag cos_angles) (\<lambda>kic.
          ebind (tadd krs kic) (\<lambda>key_rotated_imag.
          ebind (stack_last [query_rotated_real, query_rotated_imag]) (\<lambda>qst.
          ebind (reshape qst (map int (shape query))) (\<lambda>query_out.
          ebind (stack_last [key_rotated_real, key_rotated_imag]) (\<lambda>kst.
          ebind (reshape kst (map int (shape key))) (\<lambda>key_out.
          Inr (query_out, key_out)))))))))))))))))))))))))))))
      | _ \<Rightarrow> Inl ValueError)"

text \<open>
  The rotation of one pair, as lines 91 and 92 (and 97 and 98) of the program compute it
  from the cosine and the sine of the angle.
\<close>

definition rotate2d :: "real \<Rightarrow> real \<times> real \<Rightarrow> real \<times> real" where
  "rotate2d angle p =
     (fst p * cos angle - snd p * sin angle, fst p * sin angle + snd p * cos angle)"

subsection \<open>The stages of the kernel\<close>

text \<open>
  The body of \<open>apply_rotary_emb\<close> is cut into its stages, each a run of consecutive
  statements: the split into pairs (lines 59 and 60), the angles with their sines and
  cosines (lines 71 to 86), the rotation (lines 91 and 92, 97 and 98) and the
  recombination (lines 104 and 105). Lemma \<open>apply_rotary_emb_stages\<close> shows that the
  program is the sequence of these stages.
\<close>

definition split_pairs :: "tensor \<Rightarrow> error + (tensor \<times> tensor)" where
  "split_pairs t =
     ebind (reshape (float_t t) (map int (butlast (shape t)) @ [- 1, 2])) (\<lambda>c.
     ebind (unbind_last c) unpack2)"

definition rope_angles :: "nat \<Rightarrow> int \<Rightarrow> real \<Rightarrow> error + (tensor \<times> tensor)" where
  "rope_angles seqlen head_dim theta =
     ebind (arange 0 head_dim 2) (\<lambda>ar.
     ebind (arange 0 (int seqlen) 1) (\<lambda>pr.
     ebind (unsqueeze pr 1) (\<lambda>positions.
     ebind (tmul positions
              (rdiv_scalar 1 (rpow_scalar theta (div_scalar (float_t ar) (real_of_int head_dim))))) (\<lambda>angles.
     ebind (index_none_all_none_all (tsin angles)) (\<lambda>sin_angles.
     ebind (index_none_all_none_all (tcos angles)) (\<lambda>cos_angles.
     Inr (sin_angles, cos_angles)))))))"

definition rotate_pairs ::
  "tensor \<Rightarrow> tensor \<Rightarrow> tensor \<Rightarrow> tensor \<Rightarrow> error + (tensor \<times> tensor)" where
  "rotate_pairs re im sin_angles cos_angles =
     ebind (tmul re cos_angles) (\<lambda>rc.
     ebind (tmul im sin_angles) (\<lambda>isn.
     ebind (tsub rc isn) (\<lambda>rot_re.
     ebind (tmul re sin_angles) (\<lambda>rs.
     ebind (tmul im cos_angles) (\<lambda>ic.
     ebind (tadd rs ic) (\<lambda>rot_im.
     Inr (rot_re, rot_im)))))))"

definition recombine :: "tensor \<Rightarrow> tensor \<Rightarrow> nat list \<Rightarrow> error + tensor" where
  "recombine rot_re rot_im shp =
     ebind (stack_last [rot_re, rot_im]) (\<lambda>st. reshape st (map int shp))"

section \<open>Sequencing, indexing and reshaping\<close>

lemma ebind_Inr [simp]: "ebind (Inr x) f = f x" by (simp add: ebind_def)
lemma ebind_Inl [simp]: "ebind (Inl e) f = Inl e" by (simp add: ebind_def)
lemma ebind_assoc: "ebind (ebind m f) g = ebind m (\<lambda>x. ebind (f x) g)"
  by (cases m) simp_all
lemma ebind_eq_Inr: "ebind m f = Inr r \<longleftrightarrow> (\<exists>x. m = Inr x \<and> f x = Inr r)"
  by (cases m) simp_all

lemma ravel_less: "list_all2 (<) idx s \<Longrightarrow> ravel s idx < prod_list s"
proof (induction s idx rule: ravel.induct)
  case (1 d ds i "is")
  then have i: "i < d" and r: "ravel ds is < prod_list ds" by simp_all
  have "i * prod_list ds + ravel ds is < i * prod_list ds + prod_list ds" using r by simp
  also have "\<dots> = Suc i * prod_list ds" by simp
  also have "\<dots> \<le> d * prod_list ds" using i by (intro mult_le_mono1) simp
  finally show ?case by simp
qed simp_all

lemma unravel_ravel: "list_all2 (<) idx s \<Longrightarrow> unravel s (ravel s idx) = idx"
proof (induction s idx rule: ravel.induct)
  case (1 d ds i "is")
  then have r: "ravel ds is < prod_list ds" and t: "list_all2 (<) is ds"
    using ravel_less[of "is" ds] by simp_all
  then show ?case using 1 by simp
qed simp_all

lemma unravel_valid: "n < prod_list s \<Longrightarrow> list_all2 (<) (unravel s n) s"
proof (induction s arbitrary: n)
  case (Cons d ds)
  then have pos: "0 < prod_list ds" by (cases "prod_list ds = 0") simp_all
  have "n div prod_list ds < d" using Cons.prems pos
    by (simp add: less_mult_imp_div_less mult.commute)
  moreover have "n mod prod_list ds < prod_list ds" using pos by simp
  ultimately show ?case using Cons.IH by simp
qed simp

lemma ravel_unravel: "n < prod_list s \<Longrightarrow> ravel s (unravel s n) = n"
proof (induction s arbitrary: n)
  case (Cons d ds)
  then have pos: "0 < prod_list ds" by (cases "prod_list ds = 0") simp_all
  then have "ravel ds (unravel ds (n mod prod_list ds)) = n mod prod_list ds"
    using Cons.IH by simp
  then show ?case by simp
qed simp

lemma prod_list_int: "prod_list (map int s) = int (prod_list s)"
  by (induction s) simp_all

lemma infer_size_explicit:
  "infer_size (map int s) n = (if n = prod_list s then Inr s else Inl RuntimeError)"
proof -
  have c: "count_list (map int s) (- 1) = 0" by (induction s) simp_all
  have f: "filter (\<lambda>d. 0 \<le> d) (map int s) = map int s" by (induction s) simp_all
  have e: "\<not> list_ex (\<lambda>d. d < - 1) (map int s)" by (induction s) simp_all
  have p: "nat (prod_list (map int s)) = prod_list s" by (simp add: prod_list_int)
  show ?thesis by (simp add: infer_size_def c f e p Let_def comp_def)
qed

lemma reshape_explicit:
  "reshape t (map int s) = (if numel t = prod_list s then Inr (t\<lparr>shape := s\<rparr>) else Inl RuntimeError)"
  by (simp add: reshape_def infer_size_explicit)

lemma infer_size_pairs:
  "infer_size (map int pre @ [- 1, 2]) n =
     (if 0 < prod_list pre \<and> n mod (prod_list pre * 2) = 0
      then Inr (pre @ [n div (prod_list pre * 2), 2]) else Inl RuntimeError)"
proof -
  have c: "count_list (map int pre) (- 1) = 0" by (induction pre) simp_all
  have f: "filter (\<lambda>d. 0 \<le> d) (map int pre) = map int pre" by (induction pre) simp_all
  have e: "\<not> list_ex (\<lambda>d. d < - 1) (map int pre)" by (induction pre) simp_all
  have p: "nat (prod_list (map int pre) * 2) = prod_list pre * 2"
    by (simp add: prod_list_int nat_mult_distrib)
  have m: "map ((\<lambda>d. if d = - 1 then k else nat d) \<circ> int) pre = pre" for k
    by (induction pre) simp_all
  show ?thesis by (auto simp add: infer_size_def c f e p m Let_def)
qed


lemma apply_rotary_emb_stages:
  "apply_rotary_emb query key head_dim max_seq_len theta =
     (case shape query of
        [_, seqlen, _, _] \<Rightarrow>
          ebind (split_pairs query) (\<lambda>(query_real, query_imag).
          ebind (split_pairs key) (\<lambda>(key_real, key_imag).
          ebind (rope_angles seqlen head_dim theta) (\<lambda>(sin_angles, cos_angles).
          ebind (rotate_pairs query_real query_imag sin_angles cos_angles) (\<lambda>(qr, qi).
          ebind (rotate_pairs key_real key_imag sin_angles cos_angles) (\<lambda>(kr, ki).
          ebind (recombine qr qi (shape query)) (\<lambda>query_out.
          ebind (recombine kr ki (shape key)) (\<lambda>key_out.
          Inr (query_out, key_out))))))))
      | _ \<Rightarrow> Inl ValueError)"
  by (simp add: apply_rotary_emb_def split_pairs_def rope_angles_def rotate_pairs_def
      recombine_def ebind_assoc Let_def split_def split: list.splits)

section \<open>The stages on their own\<close>

lemma split_pairs_eq:
  "split_pairs t =
     (if shape t \<noteq> [] \<and> 0 < prod_list (butlast (shape t)) \<and> even (last (shape t))
      then Inr (\<lparr>shape = butlast (shape t) @ [last (shape t) div 2], dtype = Float32,
                 data = map (\<lambda>n. data t ! (n * 2))
                            [0..<prod_list (butlast (shape t)) * (last (shape t) div 2)]\<rparr>,
                \<lparr>shape = butlast (shape t) @ [last (shape t) div 2], dtype = Float32,
                 data = map (\<lambda>n. data t ! (n * 2 + 1))
                            [0..<prod_list (butlast (shape t)) * (last (shape t) div 2)]\<rparr>)
      else Inl RuntimeError)"
proof (cases "shape t = []")
  case True
  then show ?thesis
    using infer_size_pairs[of "[]" 1]
    by (simp add: split_pairs_def reshape_def numel_def float_t_def)
next
  case False
  define pre where "pre = butlast (shape t)"
  define L where "L = last (shape t)"
  have s: "shape t = pre @ [L]" using False by (simp add: pre_def L_def)
  have n: "numel (t\<lparr>dtype := Float32\<rparr>) = prod_list pre * L" by (simp add: numel_def s)
  have two: "[0..<2] = [0, Suc 0]" by (simp add: upt_rec)
  have d: "0 < prod_list pre \<Longrightarrow> (prod_list pre * L) div (prod_list pre * 2) = L div 2"
    by simp
  have r: "reshape (float_t t) (map int pre @ [- 1, 2]) =
             (if 0 < prod_list pre \<and> even L
              then Inr (t\<lparr>dtype := Float32, shape := pre @ [L div 2, 2]\<rparr>)
              else Inl RuntimeError)"
    using d by (auto simp add: reshape_def float_t_def n infer_size_pairs even_iff_mod_2_eq_zero)
  show ?thesis using False
    by (simp add: split_pairs_def r unbind_last_def unpack2_def two
        mult.commute[of "L div 2"] flip: pre_def L_def)
qed

lemma recombine_eq:
  "recombine rr ri shp =
     (if shape ri = shape rr \<and> prod_list (shape rr) * 2 = prod_list shp
      then Inr \<lparr>shape = shp, dtype = promote_types (dtype rr) (dtype ri),
                data = map (\<lambda>n. data ([rr, ri] ! (n mod 2)) ! (n div 2))
                           [0..<prod_list (shape rr) * 2]\<rparr>
      else Inl RuntimeError)"
  by (auto simp add: recombine_def stack_last_def reshape_explicit numel_def eval_nat_numeral)

lemma item_map:
  "list_all2 (<) idx os \<Longrightarrow>
   item \<lparr>shape = os, dtype = d, data = map g [0..<prod_list os]\<rparr> idx = g (ravel os idx)"
  using ravel_less[of idx os] by (simp add: item_def)

lemma bcast_index_ravel:
  "list_all2 (<) idx os \<Longrightarrow>
   bcast_index s os (ravel os idx) =
     ravel s (map2 (\<lambda>d j. if d = 1 then 0 else j) s (drop (length os - length s) idx))"
  by (simp add: bcast_index_def unravel_ravel)

lemma binop_4d_bcast:
  assumes "shape a = [B, S, H, M]" "shape c = [1, S, 1, M]"
  shows "\<exists>r. tensor_binop f a c = Inr r \<and> shape r = [B, S, H, M] \<and>
           dtype r = promote_types (dtype a) (dtype c) \<and> wf_tensor r \<and>
           (\<forall>b p h i. b < B \<and> p < S \<and> h < H \<and> i < M \<longrightarrow>
              item r [b, p, h, i] = f (item a [b, p, h, i]) (item c [0, p, 0, i]))"
proof -
  have bs: "broadcast_shapes [B, S, H, M] [1, S, 1, M] = Inr [B, S, H, M]"
    by (simp add: broadcast_shapes_def)
  define r where "r = \<lparr>shape = [B, S, H, M], dtype = promote_types (dtype a) (dtype c),
            data = map (\<lambda>n. f (data a ! bcast_index [B, S, H, M] [B, S, H, M] n)
                              (data c ! bcast_index [1, S, 1, M] [B, S, H, M] n))
                       [0..<prod_list [B, S, H, M]]\<rparr>"
  have 1: "tensor_binop f a c = Inr r"
    using bs by (simp add: tensor_binop_def assms r_def)
  have 2: "item r [b, p, h, i] = f (item a [b, p, h, i]) (item c [0, p, 0, i])"
    if "b < B" "p < S" "h < H" "i < M" for b p h i
  proof -
    have v: "list_all2 (<) [b, p, h, i] [B, S, H, M]" using that by simp
    show ?thesis
      unfolding r_def item_map[OF v] bcast_index_ravel[OF v]
      using that by (auto simp add: item_def assms)
  qed
  show ?thesis using 1 2 by (auto simp add: r_def wf_tensor_def)
qed

lemma binop_4d_same:
  assumes "shape a = [B, S, H, M]" "shape c = [B, S, H, M]"
  shows "\<exists>r. tensor_binop f a c = Inr r \<and> shape r = [B, S, H, M] \<and>
           dtype r = promote_types (dtype a) (dtype c) \<and> wf_tensor r \<and>
           (\<forall>b p h i. b < B \<and> p < S \<and> h < H \<and> i < M \<longrightarrow>
              item r [b, p, h, i] = f (item a [b, p, h, i]) (item c [b, p, h, i]))"
proof -
  have bs: "broadcast_shapes [B, S, H, M] [B, S, H, M] = Inr [B, S, H, M]"
    by (simp add: broadcast_shapes_def)
  define r where "r = \<lparr>shape = [B, S, H, M], dtype = promote_types (dtype a) (dtype c),
            data = map (\<lambda>n. f (data a ! bcast_index [B, S, H, M] [B, S, H, M] n)
                              (data c ! bcast_index [B, S, H, M] [B, S, H, M] n))
                       [0..<prod_list [B, S, H, M]]\<rparr>"
  have 1: "tensor_binop f a c = Inr r"
    using bs by (simp add: tensor_binop_def assms r_def)
  have 2: "item r [b, p, h, i] = f (item a [b, p, h, i]) (item c [b, p, h, i])"
    if "b < B" "p < S" "h < H" "i < M" for b p h i
  proof -
    have v: "list_all2 (<) [b, p, h, i] [B, S, H, M]" using that by simp
    show ?thesis
      unfolding r_def item_map[OF v] bcast_index_ravel[OF v]
      using that by (auto simp add: item_def assms)
  qed
  show ?thesis using 1 2 by (auto simp add: r_def wf_tensor_def)
qed

lemma rope_angles_neg: "head_dim < 0 \<Longrightarrow> rope_angles seqlen head_dim theta = Inl RuntimeError"
  by (simp add: rope_angles_def arange_def)

lemma rope_angles_ok:
  assumes hd: "0 \<le> head_dim"
  defines "n \<equiv> nat ((head_dim + 1) div 2)"
  shows "\<exists>s c. rope_angles S head_dim theta = Inr (s, c) \<and>
           shape s = [1, S, 1, n] \<and> shape c = [1, S, 1, n] \<and>
           dtype s = Float32 \<and> dtype c = Float32 \<and>
           (\<forall>p i. p < S \<and> i < n \<longrightarrow>
              item s [0, p, 0, i] = sin (real p * (1 / theta powr (real (2 * i) / real_of_int head_dim))) \<and>
              item c [0, p, 0, i] = cos (real p * (1 / theta powr (real (2 * i) / real_of_int head_dim))))"
proof -
  have n: "nat (- ((0 - head_dim) div 2)) = n" unfolding n_def by (rule arg_cong[of _ _ nat]) presburger
  define ar where "ar = \<lparr>shape = [n], dtype = Int64,
      data = map (\<lambda>i. real_of_int (0 + int i * 2)) [0..<n]\<rparr>"
  define invf where "invf = rdiv_scalar 1 (rpow_scalar theta (div_scalar (float_t ar) (real_of_int head_dim)))"
  define pos where "pos = \<lparr>shape = [S, 1], dtype = Int64,
      data = map (\<lambda>i. real_of_int (0 + int i * 1)) [0..<S]\<rparr>"
  define ang where "ang = \<lparr>shape = [S, n], dtype = Float32,
      data = map (\<lambda>m. data pos ! bcast_index [S, 1] [S, n] m * data invf ! bcast_index [n] [S, n] m)
                 [0..<prod_list [S, n]]\<rparr>"
  have a1: "arange 0 head_dim 2 = Inr ar" using hd n by (simp add: arange_def ar_def Let_def)
  have a2: "arange 0 (int S) 1 = Inr \<lparr>shape = [S], dtype = Int64,
      data = map (\<lambda>i. real_of_int (0 + int i * 1)) [0..<S]\<rparr>"
    by (simp add: arange_def Let_def)
  have a3: "unsqueeze \<lparr>shape = [S], dtype = Int64,
      data = map (\<lambda>i. real_of_int (0 + int i * 1)) [0..<S]\<rparr> 1 = Inr pos"
    by (simp add: unsqueeze_def pos_def)
  have si: "shape invf = [n]" and di: "dtype invf = Float32"
    and vi: "\<And>i. i < n \<Longrightarrow> data invf ! i = 1 / theta powr (real (2 * i) / real_of_int head_dim)"
    by (simp_all add: invf_def rdiv_scalar_def rpow_scalar_def div_scalar_def float_t_def ar_def
        scalar_result_def is_floating_def mult.commute)
  have bs: "broadcast_shapes [S, 1] [n] = Inr [S, n]"
    by (simp add: broadcast_shapes_def)
  have a4: "tmul pos invf = Inr ang"
    using bs by (simp add: tmul_def tensor_binop_def si di pos_def ang_def promote_types_def is_floating_def)
  have va: "data ang ! (p * n + i) = real p * (1 / theta powr (real (2 * i) / real_of_int head_dim))"
    if "p < S" "i < n" for p i
  proof -
    have v: "list_all2 (<) [p, i] [S, n]" using that by simp
    have r: "ravel [S, n] [p, i] = p * n + i" by simp
    have "data ang ! (ravel [S, n] [p, i]) =
        data pos ! bcast_index [S, 1] [S, n] (ravel [S, n] [p, i]) *
        data invf ! bcast_index [n] [S, n] (ravel [S, n] [p, i])"
      using ravel_less[OF v] unfolding ang_def by simp
    also have "\<dots> = real p * (1 / theta powr (real (2 * i) / real_of_int head_dim))"
      unfolding bcast_index_ravel[OF v] using that vi[of i] by (auto simp add: pos_def)
    finally show ?thesis unfolding r .
  qed
  define s where "s = \<lparr>shape = [1, S, 1, n], dtype = Float32, data = map sin (data ang)\<rparr>"
  define c where "c = \<lparr>shape = [1, S, 1, n], dtype = Float32, data = map cos (data ang)\<rparr>"
  have a5: "index_none_all_none_all (tsin ang) = Inr s"
    and a6: "index_none_all_none_all (tcos ang) = Inr c"
    by (simp_all add: index_none_all_none_all_def tsin_def tcos_def ang_def s_def c_def
        scalar_result_def is_floating_def)
  have r: "rope_angles S head_dim theta = Inr (s, c)"
    using a1 a2 a3 a4 a5 a6 by (simp add: rope_angles_def flip: invf_def)
  have len: "length (data ang) = S * n" by (simp add: ang_def)
  have it: "item s [0, p, 0, i] = sin (real p * (1 / theta powr (real (2 * i) / real_of_int head_dim))) \<and>
            item c [0, p, 0, i] = cos (real p * (1 / theta powr (real (2 * i) / real_of_int head_dim)))"
    if "p < S" "i < n" for p i
  proof -
    have "p * n + i < S * n" using ravel_less[of "[p, i]" "[S, n]"] that by simp
    then show ?thesis using va[OF that] len by (simp add: item_def s_def c_def)
  qed
  show ?thesis using r it by (auto simp add: s_def c_def)
qed

section \<open>The kernel on four-dimensional tensors\<close>

lemma ravel4_even: "ravel [B, S, H, 2 * M] [b, p, h, 2 * i] = ravel [B, S, H, M] [b, p, h, i] * 2"
  by (simp add: algebra_simps)

lemma ravel4_odd: "ravel [B, S, H, 2 * M] [b, p, h, 2 * i + 1] = ravel [B, S, H, M] [b, p, h, i] * 2 + 1"
  by (simp add: algebra_simps)

lemma ravel4_less:
  "b < B \<Longrightarrow> p < S \<Longrightarrow> h < H \<Longrightarrow> i < M \<Longrightarrow> ravel [B, S, H, M] [b, p, h, i] < B * S * H * M"
  using ravel_less[of "[b, p, h, i]" "[B, S, H, M]"] by (simp add: mult.assoc)

lemma split_pairs_4d:
  assumes "shape t = [B, S, H, 2 * M]" "0 < B" "0 < S" "0 < H"
  shows "\<exists>re im. split_pairs t = Inr (re, im) \<and>
           shape re = [B, S, H, M] \<and> shape im = [B, S, H, M] \<and>
           dtype re = Float32 \<and> dtype im = Float32 \<and>
           (\<forall>b p h i. b < B \<and> p < S \<and> h < H \<and> i < M \<longrightarrow>
              item re [b, p, h, i] = item t [b, p, h, 2 * i] \<and>
              item im [b, p, h, i] = item t [b, p, h, 2 * i + 1])"
proof -
  have "item \<lparr>shape = [B, S, H, M], dtype = Float32,
               data = map (\<lambda>n. data t ! (n * 2)) [0..<B * S * H * M]\<rparr> [b, p, h, i] =
          item t [b, p, h, 2 * i] \<and>
        item \<lparr>shape = [B, S, H, M], dtype = Float32,
               data = map (\<lambda>n. data t ! (n * 2 + 1)) [0..<B * S * H * M]\<rparr> [b, p, h, i] =
          item t [b, p, h, 2 * i + 1]"
    if "b < B" "p < S" "h < H" "i < M" for b p h i
    using ravel4_less[OF that]
    unfolding item_def assms(1) ravel4_even ravel4_odd by simp
  then show ?thesis using assms by (simp add: split_pairs_eq mult.assoc)
qed

lemma rotate_pairs_4d:
  assumes "shape re = [B, S, H, M]" "shape im = [B, S, H, M]"
    "shape sn = [1, S, 1, M]" "shape cs = [1, S, 1, M]"
    "dtype re = Float32" "dtype im = Float32" "dtype sn = Float32" "dtype cs = Float32"
  shows "\<exists>rr ri. rotate_pairs re im sn cs = Inr (rr, ri) \<and>
           shape rr = [B, S, H, M] \<and> shape ri = [B, S, H, M] \<and>
           dtype rr = Float32 \<and> dtype ri = Float32 \<and>
           (\<forall>b p h i. b < B \<and> p < S \<and> h < H \<and> i < M \<longrightarrow>
              item rr [b, p, h, i] =
                item re [b, p, h, i] * item cs [0, p, 0, i] - item im [b, p, h, i] * item sn [0, p, 0, i] \<and>
              item ri [b, p, h, i] =
                item re [b, p, h, i] * item sn [0, p, 0, i] + item im [b, p, h, i] * item cs [0, p, 0, i])"
proof -
  have pf: "promote_types Float32 Float32 = Float32" by (simp add: promote_types_def)
  obtain rc where rc: "tmul re cs = Inr rc" "shape rc = [B, S, H, M]" "dtype rc = Float32"
    "\<forall>b p h i. b < B \<and> p < S \<and> h < H \<and> i < M \<longrightarrow>
        item rc [b, p, h, i] = item re [b, p, h, i] * item cs [0, p, 0, i]"
    using binop_4d_bcast[OF assms(1) assms(4), of "(*)"] unfolding tmul_def assms pf by blast
  obtain isn where isn: "tmul im sn = Inr isn" "shape isn = [B, S, H, M]" "dtype isn = Float32"
    "\<forall>b p h i. b < B \<and> p < S \<and> h < H \<and> i < M \<longrightarrow>
        item isn [b, p, h, i] = item im [b, p, h, i] * item sn [0, p, 0, i]"
    using binop_4d_bcast[OF assms(2) assms(3), of "(*)"] unfolding tmul_def assms pf by blast
  obtain rr where rr: "tsub rc isn = Inr rr" "shape rr = [B, S, H, M]" "dtype rr = Float32"
    "\<forall>b p h i. b < B \<and> p < S \<and> h < H \<and> i < M \<longrightarrow>
        item rr [b, p, h, i] = item rc [b, p, h, i] - item isn [b, p, h, i]"
    using binop_4d_same[OF rc(2) isn(2), of "(-)"] unfolding tsub_def rc isn pf by blast
  obtain rs where rs: "tmul re sn = Inr rs" "shape rs = [B, S, H, M]" "dtype rs = Float32"
    "\<forall>b p h i. b < B \<and> p < S \<and> h < H \<and> i < M \<longrightarrow>
        item rs [b, p, h, i] = item re [b, p, h, i] * item sn [0, p, 0, i]"
    using binop_4d_bcast[OF assms(1) assms(3), of "(*)"] unfolding tmul_def assms pf by blast
  obtain ic where ic: "tmul im cs = Inr ic" "shape ic = [B, S, H, M]" "dtype ic = Float32"
    "\<forall>b p h i. b < B \<and> p < S \<and> h < H \<and> i < M \<longrightarrow>
        item ic [b, p, h, i] = item im [b, p, h, i] * item cs [0, p, 0, i]"
    using binop_4d_bcast[OF assms(2) assms(4), of "(*)"] unfolding tmul_def assms pf by blast
  obtain ri where ri: "tadd rs ic = Inr ri" "shape ri = [B, S, H, M]" "dtype ri = Float32"
    "\<forall>b p h i. b < B \<and> p < S \<and> h < H \<and> i < M \<longrightarrow>
        item ri [b, p, h, i] = item rs [b, p, h, i] + item ic [b, p, h, i]"
    using binop_4d_same[OF rs(2) ic(2), of "(+)"] unfolding tadd_def rs ic pf by blast
  have "rotate_pairs re im sn cs = Inr (rr, ri)"
    by (simp add: rotate_pairs_def rc(1) isn(1) rr(1) rs(1) ic(1) ri(1))
  then show ?thesis
    using rr(2,3,4) ri(2,3,4) rc(4) isn(4) rs(4) ic(4) by (intro exI[of _ rr] exI[of _ ri]) simp
qed

lemma recombine_4d:
  assumes "shape rr = [B, S, H, M]" "shape ri = [B, S, H, M]"
    "dtype rr = Float32" "dtype ri = Float32"
  shows "\<exists>out. recombine rr ri [B, S, H, 2 * M] = Inr out \<and>
           shape out = [B, S, H, 2 * M] \<and> dtype out = Float32 \<and> wf_tensor out \<and>
           (\<forall>b p h i. b < B \<and> p < S \<and> h < H \<and> i < M \<longrightarrow>
              item out [b, p, h, 2 * i] = item rr [b, p, h, i] \<and>
              item out [b, p, h, 2 * i + 1] = item ri [b, p, h, i])"
proof -
  define out where "out = \<lparr>shape = [B, S, H, 2 * M], dtype = Float32,
      data = map (\<lambda>n. data ([rr, ri] ! (n mod 2)) ! (n div 2)) [0..<B * S * H * M * 2]\<rparr>"
  have r: "recombine rr ri [B, S, H, 2 * M] = Inr out"
    by (simp add: recombine_eq assms out_def promote_types_def mult.assoc)
  have so: "shape out = [B, S, H, 2 * M]" by (simp add: out_def)
  have d: "data out ! (m * 2) = data rr ! m \<and> data out ! (m * 2 + 1) = data ri ! m"
    if "m < B * S * H * M" for m
  proof -
    have "Suc (m * 2) mod 2 = 1" by presburger
    then show ?thesis using that by (simp add: out_def)
  qed
  have "item out [b, p, h, 2 * i] = item rr [b, p, h, i] \<and>
        item out [b, p, h, 2 * i + 1] = item ri [b, p, h, i]"
    if "b < B" "p < S" "h < H" "i < M" for b p h i
    using d[OF ravel4_less[OF that]]
    unfolding item_def so assms ravel4_even ravel4_odd .
  then show ?thesis using r by (intro exI[of _ out]) (simp add: out_def wf_tensor_def mult.assoc mult.commute)
qed

lemma rotated_4d:
  assumes "shape t = [B, S, H, 2 * M]" "0 < B" "0 < S" "0 < H"
    "shape sn = [1, S, 1, M]" "shape cs = [1, S, 1, M]" "dtype sn = Float32" "dtype cs = Float32"
  shows "\<exists>re im rr ri out. split_pairs t = Inr (re, im) \<and> rotate_pairs re im sn cs = Inr (rr, ri) \<and>
           recombine rr ri (shape t) = Inr out \<and>
           shape out = shape t \<and> dtype out = Float32 \<and> wf_tensor out \<and>
           (\<forall>b p h i. b < B \<and> p < S \<and> h < H \<and> i < M \<longrightarrow>
              item out [b, p, h, 2 * i] =
                item t [b, p, h, 2 * i] * item cs [0, p, 0, i] -
                item t [b, p, h, 2 * i + 1] * item sn [0, p, 0, i] \<and>
              item out [b, p, h, 2 * i + 1] =
                item t [b, p, h, 2 * i] * item sn [0, p, 0, i] +
                item t [b, p, h, 2 * i + 1] * item cs [0, p, 0, i])"
proof -
  obtain re im where s: "split_pairs t = Inr (re, im)"
    "shape re = [B, S, H, M]" "shape im = [B, S, H, M]" "dtype re = Float32" "dtype im = Float32"
    "\<forall>b p h i. b < B \<and> p < S \<and> h < H \<and> i < M \<longrightarrow>
       item re [b, p, h, i] = item t [b, p, h, 2 * i] \<and>
       item im [b, p, h, i] = item t [b, p, h, 2 * i + 1]"
    using split_pairs_4d[OF assms(1-4)] by blast
  obtain rr ri where r: "rotate_pairs re im sn cs = Inr (rr, ri)"
    "shape rr = [B, S, H, M]" "shape ri = [B, S, H, M]" "dtype rr = Float32" "dtype ri = Float32"
    "\<forall>b p h i. b < B \<and> p < S \<and> h < H \<and> i < M \<longrightarrow>
       item rr [b, p, h, i] =
         item re [b, p, h, i] * item cs [0, p, 0, i] - item im [b, p, h, i] * item sn [0, p, 0, i] \<and>
       item ri [b, p, h, i] =
         item re [b, p, h, i] * item sn [0, p, 0, i] + item im [b, p, h, i] * item cs [0, p, 0, i]"
    using rotate_pairs_4d[OF s(2,3) assms(5,6) s(4,5) assms(7,8)] by blast
  obtain out where c: "recombine rr ri [B, S, H, 2 * M] = Inr out"
    "shape out = [B, S, H, 2 * M]" "dtype out = Float32" "wf_tensor out"
    "\<forall>b p h i. b < B \<and> p < S \<and> h < H \<and> i < M \<longrightarrow>
       item out [b, p, h, 2 * i] = item rr [b, p, h, i] \<and>
       item out [b, p, h, 2 * i + 1] = item ri [b, p, h, i]"
    using recombine_4d[OF r(2,3,4,5)] by blast
  show ?thesis
    using s(1) r(1) c(1,2,3,4) s(6) r(6) c(5) unfolding assms(1)
    by (intro exI[of _ re] exI[of _ im] exI[of _ rr] exI[of _ ri] exI[of _ out]) simp
qed

lemma kernel_4d:
  assumes q: "shape q = [B, S, H, 2 * M]" and k: "shape k = [B2, S, H2, 2 * M]"
    and pos: "0 < B" "0 < S" "0 < H" "0 < B2" "0 < H2"
    and head_dim: "0 \<le> head_dim" "nat ((head_dim + 1) div 2) = M"
  shows "\<exists>qo ko. apply_rotary_emb q k head_dim msl theta = Inr (qo, ko) \<and>
           shape qo = shape q \<and> shape ko = shape k \<and>
           dtype qo = Float32 \<and> dtype ko = Float32 \<and> wf_tensor qo \<and> wf_tensor ko \<and>
           (\<forall>b p h i. b < B \<and> p < S \<and> h < H \<and> i < M \<longrightarrow>
              (item qo [b, p, h, 2 * i], item qo [b, p, h, 2 * i + 1]) =
                rotate2d (real p * (1 / theta powr (real (2 * i) / real_of_int head_dim)))
                  (item q [b, p, h, 2 * i], item q [b, p, h, 2 * i + 1])) \<and>
           (\<forall>b p h i. b < B2 \<and> p < S \<and> h < H2 \<and> i < M \<longrightarrow>
              (item ko [b, p, h, 2 * i], item ko [b, p, h, 2 * i + 1]) =
                rotate2d (real p * (1 / theta powr (real (2 * i) / real_of_int head_dim)))
                  (item k [b, p, h, 2 * i], item k [b, p, h, 2 * i + 1]))"
proof -
  obtain sn cs where a: "rope_angles S head_dim theta = Inr (sn, cs)"
    "shape sn = [1, S, 1, M]" "shape cs = [1, S, 1, M]" "dtype sn = Float32" "dtype cs = Float32"
    "\<forall>p i. p < S \<and> i < M \<longrightarrow>
       item sn [0, p, 0, i] = sin (real p * (1 / theta powr (real (2 * i) / real_of_int head_dim))) \<and>
       item cs [0, p, 0, i] = cos (real p * (1 / theta powr (real (2 * i) / real_of_int head_dim)))"
    using rope_angles_ok[OF head_dim(1), of S theta] unfolding head_dim(2) by auto
  obtain qre qim qrr qri qo where qf: "split_pairs q = Inr (qre, qim)"
    "rotate_pairs qre qim sn cs = Inr (qrr, qri)" "recombine qrr qri (shape q) = Inr qo"
    "shape qo = shape q" "dtype qo = Float32" "wf_tensor qo"
    "\<forall>b p h i. b < B \<and> p < S \<and> h < H \<and> i < M \<longrightarrow>
       item qo [b, p, h, 2 * i] =
         item q [b, p, h, 2 * i] * item cs [0, p, 0, i] - item q [b, p, h, 2 * i + 1] * item sn [0, p, 0, i] \<and>
       item qo [b, p, h, 2 * i + 1] =
         item q [b, p, h, 2 * i] * item sn [0, p, 0, i] + item q [b, p, h, 2 * i + 1] * item cs [0, p, 0, i]"
    using rotated_4d[OF q pos(1,2,3) a(2,3,4,5)] by blast
  obtain kre kim krr kri ko where kf: "split_pairs k = Inr (kre, kim)"
    "rotate_pairs kre kim sn cs = Inr (krr, kri)" "recombine krr kri (shape k) = Inr ko"
    "shape ko = shape k" "dtype ko = Float32" "wf_tensor ko"
    "\<forall>b p h i. b < B2 \<and> p < S \<and> h < H2 \<and> i < M \<longrightarrow>
       item ko [b, p, h, 2 * i] =
         item k [b, p, h, 2 * i] * item cs [0, p, 0, i] - item k [b, p, h, 2 * i + 1] * item sn [0, p, 0, i] \<and>
       item ko [b, p, h, 2 * i + 1] =
         item k [b, p, h, 2 * i] * item sn [0, p, 0, i] + item k [b, p, h, 2 * i + 1] * item cs [0, p, 0, i]"
    using rotated_4d[OF k pos(4,2,5) a(2,3,4,5)] by blast
  have r: "apply_rotary_emb q k head_dim msl theta = Inr (qo, ko)"
    unfolding apply_rotary_emb_stages q
    using qf(1,2,3) kf(1,2,3) a(1) by (simp add: q)
  show ?thesis
    using r qf(4-7) kf(4-7) a(6)
    by (intro exI[of _ qo] exI[of _ ko]) (simp add: rotate2d_def)
qed

lemma tensor_ext_4d:
  assumes "shape a = [B, S, H, D]" "shape c = [B, S, H, D]" "wf_tensor a" "wf_tensor c"
    and it: "\<And>b p h j. b < B \<Longrightarrow> p < S \<Longrightarrow> h < H \<Longrightarrow> j < D \<Longrightarrow> item a [b, p, h, j] = item c [b, p, h, j]"
  shows "data a = data c"
proof (rule nth_equalityI)
  show "length (data a) = length (data c)" using assms(1-4) by (simp add: wf_tensor_def)
next
  fix n assume "n < length (data a)"
  then have n: "n < prod_list [B, S, H, D]" using assms(1,3) by (simp add: wf_tensor_def)
  obtain b p h j where u: "unravel [B, S, H, D] n = [b, p, h, j]" by simp
  have "list_all2 (<) [b, p, h, j] [B, S, H, D]" using unravel_valid[OF n] unfolding u .
  then have "item a [b, p, h, j] = item c [b, p, h, j]" using it by simp
  moreover have "ravel [B, S, H, D] [b, p, h, j] = n" using ravel_unravel[OF n] unfolding u .
  ultimately show "data a ! n = data c ! n" by (simp add: item_def assms(1,2) del: ravel.simps)
qed


lemma kernel_pairs:
  assumes "shape query = [B, S, H, D]" "shape key = [B2, S, H2, D]" "even D"
    and "0 < B" "0 < S" "0 < H" "0 < B2" "0 < H2"
  shows "\<exists>qo ko. apply_rotary_emb query key (int D) max_seq_len theta = Inr (qo, ko) \<and>
           shape qo = [B, S, H, D] \<and> shape ko = [B2, S, H2, D] \<and>
           dtype qo = Float32 \<and> dtype ko = Float32 \<and> wf_tensor qo \<and> wf_tensor ko \<and>
           (\<forall>b p h i. b < B \<and> p < S \<and> h < H \<and> i < D div 2 \<longrightarrow>
              (item qo [b, p, h, 2 * i], item qo [b, p, h, 2 * i + 1]) =
                rotate2d (real p * theta powr (- (2 * real i / real D)))
                  (item query [b, p, h, 2 * i], item query [b, p, h, 2 * i + 1])) \<and>
           (\<forall>b p h i. b < B2 \<and> p < S \<and> h < H2 \<and> i < D div 2 \<longrightarrow>
              (item ko [b, p, h, 2 * i], item ko [b, p, h, 2 * i + 1]) =
                rotate2d (real p * theta powr (- (2 * real i / real D)))
                  (item key [b, p, h, 2 * i], item key [b, p, h, 2 * i + 1]))"
proof -
  obtain M where D: "D = 2 * M" using \<open>even D\<close> by (auto elim: evenE)
  have hd: "0 \<le> int (2 * M)" "nat ((int (2 * M) + 1) div 2) = M" by simp_all
  have ang: "real p * (1 / theta powr (real (2 * i) / real_of_int (int (2 * M)))) =
             real p * theta powr (- (2 * real i / real (2 * M)))" for p i
    by (simp add: powr_minus_divide)
  have M: "(2 * M) div 2 = M" by simp
  show ?thesis
    using kernel_4d[OF assms(1,2)[unfolded D] assms(4-8) hd, of max_seq_len theta]
    unfolding ang D M assms(1,2)[unfolded D] .
qed

lemma rotate2d_norm:
  "(fst (rotate2d a p))\<^sup>2 + (snd (rotate2d a p))\<^sup>2 = (fst p)\<^sup>2 + (snd p)\<^sup>2"
proof -
  have g: "(x * c - y * s)\<^sup>2 + (x * s + y * c)\<^sup>2 = (x\<^sup>2 + y\<^sup>2) * (s\<^sup>2 + c\<^sup>2)"
    for x y s c :: real
    by (simp add: power2_eq_square algebra_simps)
  show ?thesis unfolding rotate2d_def fst_conv snd_conv g by simp
qed

lemma rotate2d_dot:
  "fst (rotate2d a p) * fst (rotate2d b q) + snd (rotate2d a p) * snd (rotate2d b q) =
     (fst p * fst q + snd p * snd q) * cos (a - b) + (fst p * snd q - snd p * fst q) * sin (a - b)"
  by (simp add: rotate2d_def cos_diff sin_diff algebra_simps)

lemma rotate2d_zero: "rotate2d 0 p = p"
  by (simp add: rotate2d_def)

section \<open>The rotation of the pairs\<close>

text \<open>
  C1. For a query of shape \<open>(B, S, H, D)\<close> and a key of shape \<open>(B2, S, H2, D)\<close> with
  \<open>D\<close> even, every axis before the last of positive size, and \<open>head_dim = D\<close>,
  \<open>apply_rotary_emb\<close> returns tensors of the shapes of its inputs in which the pair at
  the positions \<open>2 i\<close> and \<open>2 i + 1\<close> of the vector at sequence position \<open>p\<close> is the
  pair of the input at the same positions, rotated by the angle
  \<open>p * theta powr (- 2 i / D)\<close>.
\<close>

theorem apply_rotary_emb_rotates_pairs:
  assumes "shape query = [B, S, H, D]" "shape key = [B2, S, H2, D]"
    and "wf_tensor query" "wf_tensor key" "even D"
    and "0 < B" "0 < S" "0 < H" "0 < B2" "0 < H2" "0 < theta"
  shows "\<exists>qo ko. apply_rotary_emb query key (int D) max_seq_len theta = Inr (qo, ko) \<and>
           shape qo = [B, S, H, D] \<and> shape ko = [B2, S, H2, D] \<and>
           (\<forall>b p h i. b < B \<and> p < S \<and> h < H \<and> i < D div 2 \<longrightarrow>
              (item qo [b, p, h, 2 * i], item qo [b, p, h, 2 * i + 1]) =
                rotate2d (real p * theta powr (- (2 * real i / real D)))
                  (item query [b, p, h, 2 * i], item query [b, p, h, 2 * i + 1])) \<and>
           (\<forall>b p h i. b < B2 \<and> p < S \<and> h < H2 \<and> i < D div 2 \<longrightarrow>
              (item ko [b, p, h, 2 * i], item ko [b, p, h, 2 * i + 1]) =
                rotate2d (real p * theta powr (- (2 * real i / real D)))
                  (item key [b, p, h, 2 * i], item key [b, p, h, 2 * i + 1]))"
proof -
  from kernel_pairs[OF assms(1,2,5-10), of max_seq_len theta] show ?thesis
  proof (elim exE conjE)
    fix qo ko
    assume "apply_rotary_emb query key (int D) max_seq_len theta = Inr (qo, ko)"
      "shape qo = [B, S, H, D]" "shape ko = [B2, S, H2, D]"
      "\<forall>b p h i. b < B \<and> p < S \<and> h < H \<and> i < D div 2 \<longrightarrow>
         (item qo [b, p, h, 2 * i], item qo [b, p, h, 2 * i + 1]) =
           rotate2d (real p * theta powr (- (2 * real i / real D)))
             (item query [b, p, h, 2 * i], item query [b, p, h, 2 * i + 1])"
      "\<forall>b p h i. b < B2 \<and> p < S \<and> h < H2 \<and> i < D div 2 \<longrightarrow>
         (item ko [b, p, h, 2 * i], item ko [b, p, h, 2 * i + 1]) =
           rotate2d (real p * theta powr (- (2 * real i / real D)))
             (item key [b, p, h, 2 * i], item key [b, p, h, 2 * i + 1])"
    then show ?thesis by (intro exI[of _ qo] exI[of _ ko] conjI)
  qed
qed

theorem apply_rotary_emb_rotates_pairs_witness:
  "\<exists>qo ko. apply_rotary_emb \<lparr>shape = [1, 2, 1, 2], dtype = Float32, data = [1, 0, 1, 0]\<rparr>
             \<lparr>shape = [1, 2, 1, 2], dtype = Float32, data = [0, 1, 0, 1]\<rparr> 2 8 10000 = Inr (qo, ko) \<and>
           item qo [0, 1, 0, 0] = cos 1 \<and> item qo [0, 1, 0, 1] = sin 1 \<and>
           item ko [0, 1, 0, 0] = - sin 1 \<and> item ko [0, 1, 0, 1] = cos 1"
proof -
  let ?q = "\<lparr>shape = [1, 2, 1, 2], dtype = Float32, data = [1, 0, 1, 0 :: real]\<rparr>"
  let ?k = "\<lparr>shape = [1, 2, 1, 2], dtype = Float32, data = [0, 1, 0, 1 :: real]\<rparr>"
  have "\<exists>qo ko. apply_rotary_emb ?q ?k (int 2) 8 10000 = Inr (qo, ko) \<and>
           shape qo = [1, 2, 1, 2] \<and> shape ko = [1, 2, 1, 2] \<and>
           (\<forall>b p h i. b < 1 \<and> p < 2 \<and> h < 1 \<and> i < 2 div 2 \<longrightarrow>
              (item qo [b, p, h, 2 * i], item qo [b, p, h, 2 * i + 1]) =
                rotate2d (real p * 10000 powr (- (2 * real i / real 2)))
                  (item ?q [b, p, h, 2 * i], item ?q [b, p, h, 2 * i + 1])) \<and>
           (\<forall>b p h i. b < 1 \<and> p < 2 \<and> h < 1 \<and> i < 2 div 2 \<longrightarrow>
              (item ko [b, p, h, 2 * i], item ko [b, p, h, 2 * i + 1]) =
                rotate2d (real p * 10000 powr (- (2 * real i / real 2)))
                  (item ?k [b, p, h, 2 * i], item ?k [b, p, h, 2 * i + 1]))"
    by (rule apply_rotary_emb_rotates_pairs) (simp_all add: wf_tensor_def)
  then show ?thesis
  proof (elim exE conjE)
    fix qo ko
    assume r: "apply_rotary_emb ?q ?k (int 2) 8 10000 = Inr (qo, ko)"
    assume q: "\<forall>b p h i. b < 1 \<and> p < 2 \<and> h < 1 \<and> i < 2 div 2 \<longrightarrow>
              (item qo [b, p, h, 2 * i], item qo [b, p, h, 2 * i + 1]) =
                rotate2d (real p * 10000 powr (- (2 * real i / real 2)))
                  (item ?q [b, p, h, 2 * i], item ?q [b, p, h, 2 * i + 1])"
    assume k: "\<forall>b p h i. b < 1 \<and> p < 2 \<and> h < 1 \<and> i < 2 div 2 \<longrightarrow>
              (item ko [b, p, h, 2 * i], item ko [b, p, h, 2 * i + 1]) =
                rotate2d (real p * 10000 powr (- (2 * real i / real 2)))
                  (item ?k [b, p, h, 2 * i], item ?k [b, p, h, 2 * i + 1])"
    have "item qo [0, 1, 0, 0] = cos 1 \<and> item qo [0, 1, 0, 1] = sin 1"
      using q[rule_format, of 0 1 0 0] by (simp add: rotate2d_def item_def)
    moreover have "item ko [0, 1, 0, 0] = - sin 1 \<and> item ko [0, 1, 0, 1] = cos 1"
      using k[rule_format, of 0 1 0 0] by (simp add: rotate2d_def item_def)
    ultimately show ?thesis using r by simp
  qed
qed

section \<open>Independence of the maximal sequence length\<close>

text \<open>
  C9. Two calls of \<open>apply_rotary_emb\<close> that differ only in \<open>max_seq_len\<close> return the
  same result, be it a pair of tensors or an error.
\<close>

theorem apply_rotary_emb_max_seq_len:
  "apply_rotary_emb query key head_dim m1 theta = apply_rotary_emb query key head_dim m2 theta"
  by (simp add: apply_rotary_emb_def)

section \<open>Norms, relative positions and the inverse rotation\<close>

text \<open>
  C3. Under the conditions of C1, every rotated pair of the query and of the key has the
  squared norm of the pair it comes from, at every position and for every head. The
  equality is exact in the real-valued model; the rounding of 32-bit floats, which the
  claim allows for, is not modelled.
\<close>

theorem apply_rotary_emb_preserves_norm:
  assumes "shape query = [B, S, H, D]" "shape key = [B2, S, H2, D]"
    and "wf_tensor query" "wf_tensor key" "even D"
    and "0 < B" "0 < S" "0 < H" "0 < B2" "0 < H2" "0 < theta"
  shows "\<exists>qo ko. apply_rotary_emb query key (int D) max_seq_len theta = Inr (qo, ko) \<and>
           (\<forall>b p h i. b < B \<and> p < S \<and> h < H \<and> i < D div 2 \<longrightarrow>
              (item qo [b, p, h, 2 * i])\<^sup>2 + (item qo [b, p, h, 2 * i + 1])\<^sup>2 =
              (item query [b, p, h, 2 * i])\<^sup>2 + (item query [b, p, h, 2 * i + 1])\<^sup>2) \<and>
           (\<forall>b p h i. b < B2 \<and> p < S \<and> h < H2 \<and> i < D div 2 \<longrightarrow>
              (item ko [b, p, h, 2 * i])\<^sup>2 + (item ko [b, p, h, 2 * i + 1])\<^sup>2 =
              (item key [b, p, h, 2 * i])\<^sup>2 + (item key [b, p, h, 2 * i + 1])\<^sup>2)"
proof -
  have n: "x\<^sup>2 + y\<^sup>2 = u\<^sup>2 + v\<^sup>2" if "(x, y) = rotate2d a (u, v)" for x y u v a :: real
    using rotate2d_norm[of a "(u, v)"] that[symmetric] by simp
  from kernel_pairs[OF assms(1,2,5-10), of max_seq_len theta] show ?thesis
  proof (elim exE conjE)
    fix qo ko
    assume r: "apply_rotary_emb query key (int D) max_seq_len theta = Inr (qo, ko)"
      and q: "\<forall>b p h i. b < B \<and> p < S \<and> h < H \<and> i < D div 2 \<longrightarrow>
         (item qo [b, p, h, 2 * i], item qo [b, p, h, 2 * i + 1]) =
           rotate2d (real p * theta powr (- (2 * real i / real D)))
             (item query [b, p, h, 2 * i], item query [b, p, h, 2 * i + 1])"
      and k: "\<forall>b p h i. b < B2 \<and> p < S \<and> h < H2 \<and> i < D div 2 \<longrightarrow>
         (item ko [b, p, h, 2 * i], item ko [b, p, h, 2 * i + 1]) =
           rotate2d (real p * theta powr (- (2 * real i / real D)))
             (item key [b, p, h, 2 * i], item key [b, p, h, 2 * i + 1])"
    have "(item qo [b, p, h, 2 * i])\<^sup>2 + (item qo [b, p, h, 2 * i + 1])\<^sup>2 =
          (item query [b, p, h, 2 * i])\<^sup>2 + (item query [b, p, h, 2 * i + 1])\<^sup>2"
      if "b < B \<and> p < S \<and> h < H \<and> i < D div 2" for b p h i
      using q[rule_format, OF that] by (rule n)
    moreover have "(item ko [b, p, h, 2 * i])\<^sup>2 + (item ko [b, p, h, 2 * i + 1])\<^sup>2 =
          (item key [b, p, h, 2 * i])\<^sup>2 + (item key [b, p, h, 2 * i + 1])\<^sup>2"
      if "b < B2 \<and> p < S \<and> h < H2 \<and> i < D div 2" for b p h i
      using k[rule_format, OF that] by (rule n)
    ultimately show ?thesis using r by (intro exI[of _ qo] exI[of _ ko]) simp
  qed
qed

theorem apply_rotary_emb_preserves_norm_witness:
  "\<exists>qo ko. apply_rotary_emb \<lparr>shape = [1, 2, 1, 2], dtype = Float32, data = [1, 2, 3, 4]\<rparr>
             \<lparr>shape = [1, 2, 1, 2], dtype = Float32, data = [5, 6, 7, 8]\<rparr> 2 8 10000 = Inr (qo, ko) \<and>
           (item qo [0, 1, 0, 0])\<^sup>2 + (item qo [0, 1, 0, 1])\<^sup>2 = 25 \<and>
           (item ko [0, 1, 0, 0])\<^sup>2 + (item ko [0, 1, 0, 1])\<^sup>2 = 113"
proof -
  let ?q = "\<lparr>shape = [1, 2, 1, 2], dtype = Float32, data = [1, 2, 3, 4 :: real]\<rparr>"
  let ?k = "\<lparr>shape = [1, 2, 1, 2], dtype = Float32, data = [5, 6, 7, 8 :: real]\<rparr>"
  have "\<exists>qo ko. apply_rotary_emb ?q ?k (int 2) 8 10000 = Inr (qo, ko) \<and>
           (\<forall>b p h i. b < 1 \<and> p < 2 \<and> h < 1 \<and> i < 2 div 2 \<longrightarrow>
              (item qo [b, p, h, 2 * i])\<^sup>2 + (item qo [b, p, h, 2 * i + 1])\<^sup>2 =
              (item ?q [b, p, h, 2 * i])\<^sup>2 + (item ?q [b, p, h, 2 * i + 1])\<^sup>2) \<and>
           (\<forall>b p h i. b < 1 \<and> p < 2 \<and> h < 1 \<and> i < 2 div 2 \<longrightarrow>
              (item ko [b, p, h, 2 * i])\<^sup>2 + (item ko [b, p, h, 2 * i + 1])\<^sup>2 =
              (item ?k [b, p, h, 2 * i])\<^sup>2 + (item ?k [b, p, h, 2 * i + 1])\<^sup>2)"
    by (rule apply_rotary_emb_preserves_norm) (simp_all add: wf_tensor_def)
  then show ?thesis
  proof (elim exE conjE)
    fix qo ko
    assume r: "apply_rotary_emb ?q ?k (int 2) 8 10000 = Inr (qo, ko)"
    assume q: "\<forall>b p h i. b < 1 \<and> p < 2 \<and> h < 1 \<and> i < 2 div 2 \<longrightarrow>
              (item qo [b, p, h, 2 * i])\<^sup>2 + (item qo [b, p, h, 2 * i + 1])\<^sup>2 =
              (item ?q [b, p, h, 2 * i])\<^sup>2 + (item ?q [b, p, h, 2 * i + 1])\<^sup>2"
    assume k: "\<forall>b p h i. b < 1 \<and> p < 2 \<and> h < 1 \<and> i < 2 div 2 \<longrightarrow>
              (item ko [b, p, h, 2 * i])\<^sup>2 + (item ko [b, p, h, 2 * i + 1])\<^sup>2 =
              (item ?k [b, p, h, 2 * i])\<^sup>2 + (item ?k [b, p, h, 2 * i + 1])\<^sup>2"
    have "(item qo [0, 1, 0, 0])\<^sup>2 + (item qo [0, 1, 0, 1])\<^sup>2 = 25"
      using q[rule_format, of 0 1 0 0] by (simp add: item_def)
    moreover have "(item ko [0, 1, 0, 0])\<^sup>2 + (item ko [0, 1, 0, 1])\<^sup>2 = 113"
      using k[rule_format, of 0 1 0 0] by (simp add: item_def)
    ultimately show ?thesis using r by simp
  qed
qed

text \<open>
  C7. The rotation of a pair by an angle, followed by the rotation by the opposite angle,
  gives the pair back. \<open>rotate2d\<close> is the rotation that the kernel applies to every pair
  (lemma \<open>kernel_pairs\<close>); the equality is exact in real arithmetic.
\<close>

theorem rotate2d_inverse: "rotate2d (- angle) (rotate2d angle p) = p"
proof -
  have g1: "(x * c - y * s) * c - (x * s + y * c) * (- s) = x * (s\<^sup>2 + c\<^sup>2)"
    and g2: "(x * c - y * s) * (- s) + (x * s + y * c) * c = y * (s\<^sup>2 + c\<^sup>2)"
    for x y s c :: real
    by (simp_all add: power2_eq_square algebra_simps)
  show ?thesis
    unfolding rotate2d_def fst_conv snd_conv cos_minus sin_minus g1 g2 by simp
qed

text \<open>
  C4. Under the conditions of C1, let one query pair stand at the sequence positions
  \<open>m\<close> and \<open>m'\<close> and one key pair at the positions \<open>n\<close> and \<open>n'\<close> (in any batch entry
  and head), with \<open>m - n = m' - n'\<close>. Then the dot product of the rotated query pair at
  \<open>m\<close> with the rotated key pair at \<open>n\<close> equals the one of the rotated pairs at \<open>m'\<close> and
  \<open>n'\<close>: it depends on the positions through their difference only.
\<close>

theorem apply_rotary_emb_relative_position:
  assumes "shape query = [B, S, H, D]" "shape key = [B2, S, H2, D]"
    and "wf_tensor query" "wf_tensor key" "even D"
    and "0 < B" "0 < S" "0 < H" "0 < B2" "0 < H2" "0 < theta"
    and qi: "b < B \<and> m < S \<and> h < H \<and> i < D div 2" "b' < B \<and> m' < S \<and> h' < H \<and> i < D div 2"
    and ki: "c < B2 \<and> n < S \<and> g < H2 \<and> i < D div 2" "c' < B2 \<and> n' < S \<and> g' < H2 \<and> i < D div 2"
    and diff: "int m - int n = int m' - int n'"
    and qv: "item query [b, m, h, 2 * i] = item query [b', m', h', 2 * i]"
            "item query [b, m, h, 2 * i + 1] = item query [b', m', h', 2 * i + 1]"
    and kv: "item key [c, n, g, 2 * i] = item key [c', n', g', 2 * i]"
            "item key [c, n, g, 2 * i + 1] = item key [c', n', g', 2 * i + 1]"
  shows "\<exists>qo ko. apply_rotary_emb query key (int D) max_seq_len theta = Inr (qo, ko) \<and>
           item qo [b, m, h, 2 * i] * item ko [c, n, g, 2 * i] +
           item qo [b, m, h, 2 * i + 1] * item ko [c, n, g, 2 * i + 1] =
           item qo [b', m', h', 2 * i] * item ko [c', n', g', 2 * i] +
           item qo [b', m', h', 2 * i + 1] * item ko [c', n', g', 2 * i + 1]"
proof -
  define f where "f = theta powr (- (2 * real i / real D))"
  have dot: "x * u + y * v =
      (x0 * u0 + y0 * v0) * cos (s - t) + (x0 * v0 - y0 * u0) * sin (s - t)"
    if "(x, y) = rotate2d s (x0, y0)" "(u, v) = rotate2d t (u0, v0)" for x y u v x0 y0 u0 v0 s t :: real
    using rotate2d_dot[of s "(x0, y0)" t "(u0, v0)"] that[symmetric] by simp
  have "real_of_int (int m - int n) = real_of_int (int m' - int n')" using diff by simp
  then have "real m - real n = real m' - real n'" by simp
  then have "(real m - real n) * f = (real m' - real n') * f" by (rule arg_cong)
  then have d: "real m * f - real n * f = real m' * f - real n' * f"
    by (simp only: left_diff_distrib)
  from kernel_pairs[OF assms(1,2,5-10), of max_seq_len theta] show ?thesis
  proof (elim exE conjE)
    fix qo ko
    assume r: "apply_rotary_emb query key (int D) max_seq_len theta = Inr (qo, ko)"
      and q: "\<forall>b p h i. b < B \<and> p < S \<and> h < H \<and> i < D div 2 \<longrightarrow>
         (item qo [b, p, h, 2 * i], item qo [b, p, h, 2 * i + 1]) =
           rotate2d (real p * theta powr (- (2 * real i / real D)))
             (item query [b, p, h, 2 * i], item query [b, p, h, 2 * i + 1])"
      and k: "\<forall>b p h i. b < B2 \<and> p < S \<and> h < H2 \<and> i < D div 2 \<longrightarrow>
         (item ko [b, p, h, 2 * i], item ko [b, p, h, 2 * i + 1]) =
           rotate2d (real p * theta powr (- (2 * real i / real D)))
             (item key [b, p, h, 2 * i], item key [b, p, h, 2 * i + 1])"
    have "item qo [b, m, h, 2 * i] * item ko [c, n, g, 2 * i] +
          item qo [b, m, h, 2 * i + 1] * item ko [c, n, g, 2 * i + 1] =
          item qo [b', m', h', 2 * i] * item ko [c', n', g', 2 * i] +
          item qo [b', m', h', 2 * i + 1] * item ko [c', n', g', 2 * i + 1]"
      unfolding dot[OF q[rule_format, OF qi(1)] k[rule_format, OF ki(1)]]
        dot[OF q[rule_format, OF qi(2)] k[rule_format, OF ki(2)]]
        qv kv d[unfolded f_def] ..
    then show ?thesis using r by (intro exI[of _ qo] exI[of _ ko] conjI)
  qed
qed

theorem apply_rotary_emb_relative_position_witness:
  "\<exists>qo ko. apply_rotary_emb \<lparr>shape = [1, 3, 1, 2], dtype = Float32, data = [1, 2, 1, 2, 1, 2]\<rparr>
             \<lparr>shape = [1, 3, 1, 2], dtype = Float32, data = [3, 4, 3, 4, 3, 4]\<rparr> 2 8 10000 = Inr (qo, ko) \<and>
           item qo [0, 1, 0, 0] * item ko [0, 0, 0, 0] + item qo [0, 1, 0, 1] * item ko [0, 0, 0, 1] =
           item qo [0, 2, 0, 0] * item ko [0, 1, 0, 0] + item qo [0, 2, 0, 1] * item ko [0, 1, 0, 1]"
proof -
  let ?q = "\<lparr>shape = [1, 3, 1, 2], dtype = Float32, data = [1, 2, 1, 2, 1, 2 :: real]\<rparr>"
  let ?k = "\<lparr>shape = [1, 3, 1, 2], dtype = Float32, data = [3, 4, 3, 4, 3, 4 :: real]\<rparr>"
  have "\<exists>qo ko. apply_rotary_emb ?q ?k (int 2) 8 10000 = Inr (qo, ko) \<and>
           item qo [0, 1, 0, 2 * 0] * item ko [0, 0, 0, 2 * 0] +
           item qo [0, 1, 0, 2 * 0 + 1] * item ko [0, 0, 0, 2 * 0 + 1] =
           item qo [0, 2, 0, 2 * 0] * item ko [0, 1, 0, 2 * 0] +
           item qo [0, 2, 0, 2 * 0 + 1] * item ko [0, 1, 0, 2 * 0 + 1]"
    by (rule apply_rotary_emb_relative_position[where B = 1 and S = 3 and H = 1 and ?B2.0 = 1 and ?H2.0 = 1])
      (simp_all add: wf_tensor_def item_def)
  then show ?thesis by simp
qed

section \<open>The identity at position zero\<close>

text \<open>
  C6. With \<open>theta = 10000\<close>, \<open>head_dim = 2\<close> and a sequence of length 1, the only angle is
  0 and the rotation is the identity: for a query and a key of an element type that
  \<^verbatim>\<open>.float()\<close> converts without rounding (\<open>float_exact\<close>), the outputs of
  \<open>apply_rotary_emb\<close> have the shapes and the elements of its inputs. (Their element type
  is \<open>Float32\<close>, whatever the one of the inputs.) For \<open>Int32\<close>, \<open>Int64\<close> and \<open>Float64\<close>
  inputs the outputs of the program are the inputs rounded to \<^verbatim>\<open>float32\<close>, which the
  theorem does not cover.
\<close>

theorem apply_rotary_emb_single_position:
  assumes "shape query = [B, 1, H, 2]" "shape key = [B2, 1, H2, 2]"
    and "wf_tensor query" "wf_tensor key"
    and "0 < B" "0 < H" "0 < B2" "0 < H2"
    and "float_exact (dtype query)" "float_exact (dtype key)"
  shows "\<exists>qo ko. apply_rotary_emb query key 2 max_seq_len 10000 = Inr (qo, ko) \<and>
           shape qo = shape query \<and> data qo = data query \<and>
           shape ko = shape key \<and> data ko = data key"
proof -
  have two: "j = 2 * 0 \<or> j = 2 * 0 + 1" if "j < 2" for j :: nat using that by auto
  have k: "\<exists>qo ko. apply_rotary_emb query key (int 2) max_seq_len 10000 = Inr (qo, ko) \<and>
           shape qo = [B, 1, H, 2] \<and> shape ko = [B2, 1, H2, 2] \<and>
           dtype qo = Float32 \<and> dtype ko = Float32 \<and> wf_tensor qo \<and> wf_tensor ko \<and>
           (\<forall>b p h i. b < B \<and> p < 1 \<and> h < H \<and> i < 2 div 2 \<longrightarrow>
              (item qo [b, p, h, 2 * i], item qo [b, p, h, 2 * i + 1]) =
                rotate2d (real p * 10000 powr (- (2 * real i / real 2)))
                  (item query [b, p, h, 2 * i], item query [b, p, h, 2 * i + 1])) \<and>
           (\<forall>b p h i. b < B2 \<and> p < 1 \<and> h < H2 \<and> i < 2 div 2 \<longrightarrow>
              (item ko [b, p, h, 2 * i], item ko [b, p, h, 2 * i + 1]) =
                rotate2d (real p * 10000 powr (- (2 * real i / real 2)))
                  (item key [b, p, h, 2 * i], item key [b, p, h, 2 * i + 1]))"
    by (rule kernel_pairs[OF assms(1,2)]) (simp_all add: assms(5-8))
  from k show ?thesis
  proof (elim exE conjE)
    fix qo ko
    assume r: "apply_rotary_emb query key (int 2) max_seq_len 10000 = Inr (qo, ko)"
      and s: "shape qo = [B, 1, H, 2]" "shape ko = [B2, 1, H2, 2]"
      and w: "wf_tensor qo" "wf_tensor ko"
      and q: "\<forall>b p h i. b < B \<and> p < 1 \<and> h < H \<and> i < 2 div 2 \<longrightarrow>
              (item qo [b, p, h, 2 * i], item qo [b, p, h, 2 * i + 1]) =
                rotate2d (real p * 10000 powr (- (2 * real i / real 2)))
                  (item query [b, p, h, 2 * i], item query [b, p, h, 2 * i + 1])"
      and k: "\<forall>b p h i. b < B2 \<and> p < 1 \<and> h < H2 \<and> i < 2 div 2 \<longrightarrow>
              (item ko [b, p, h, 2 * i], item ko [b, p, h, 2 * i + 1]) =
                rotate2d (real p * 10000 powr (- (2 * real i / real 2)))
                  (item key [b, p, h, 2 * i], item key [b, p, h, 2 * i + 1])"
    have qe: "item qo [b, p, h, j] = item query [b, p, h, j]"
      if "b < B" "p < 1" "h < H" "j < 2" for b p h j
      using q[rule_format, of b p h 0] that two[OF that(4)] by (auto simp add: rotate2d_zero)
    have ke: "item ko [b, p, h, j] = item key [b, p, h, j]"
      if "b < B2" "p < 1" "h < H2" "j < 2" for b p h j
      using k[rule_format, of b p h 0] that two[OF that(4)] by (auto simp add: rotate2d_zero)
    have "data qo = data query"
      using s(1) assms(1) w(1) assms(3) qe by (rule tensor_ext_4d)
    moreover have "data ko = data key"
      using s(2) assms(2) w(2) assms(4) ke by (rule tensor_ext_4d)
    ultimately show ?thesis using r s assms(1,2) by (intro exI[of _ qo] exI[of _ ko]) simp
  qed
qed

theorem apply_rotary_emb_single_position_witness:
  "\<exists>qo ko. apply_rotary_emb \<lparr>shape = [1, 1, 2, 2], dtype = Float16, data = [1, 2, 3, 4]\<rparr>
             \<lparr>shape = [1, 1, 1, 2], dtype = Float16, data = [5, 6]\<rparr> 2 8 10000 = Inr (qo, ko) \<and>
           shape qo = [1, 1, 2, 2] \<and> data qo = [1, 2, 3, 4] \<and>
           shape ko = [1, 1, 1, 2] \<and> data ko = [5, 6]"
  using apply_rotary_emb_single_position[of
      "\<lparr>shape = [1, 1, 2, 2], dtype = Float16, data = [1, 2, 3, 4]\<rparr>" 1 2
      "\<lparr>shape = [1, 1, 1, 2], dtype = Float16, data = [5, 6]\<rparr>" 1 1 8]
  by (simp add: wf_tensor_def float_exact_def)

section \<open>The broadcast helper\<close>

lemma keep_axes_int:
  "map (\<lambda>(i, d). if P i then int d else 1) xs = map int (map (\<lambda>(i, d). if P i then d else 1) xs)"
  by (induction xs) auto

lemma keep_last_prod:
  "rest \<noteq> [] \<Longrightarrow> 2 \<le> k \<Longrightarrow>
   prod_list (map (\<lambda>(i, d). if i = 1 \<or> i = k + length rest - 1 then d else 1) (enumerate k rest)) =
     last rest"
proof (induction rest arbitrary: k)
  case Nil
  then show ?case by simp
next
  case (Cons r rest)
  show ?case
  proof (cases "rest = []")
    case True
    then show ?thesis using Cons.prems by simp
  next
    case False
    have "prod_list (map (\<lambda>(i, d). if i = 1 \<or> i = Suc k + length rest - 1 then d else 1)
            (enumerate (Suc k) rest)) = last rest"
      using Cons.IH[OF False, of "Suc k"] Cons.prems by simp
    moreover have "0 < length rest" using False by simp
    ultimately show ?thesis using False Cons.prems by simp
  qed
qed

lemma length_two_shape: "length s = 2 \<Longrightarrow> \<exists>a b. s = [a, b]"
  by (auto simp add: length_Suc_conv eval_nat_numeral)

lemma length_three_shape: "3 \<le> length s \<Longrightarrow> \<exists>a b c rest. s = a # b # c # rest"
  by (auto simp add: Suc_le_length_iff eval_nat_numeral)

lemma keep_axes_prod:
  assumes "3 \<le> length s"
  shows "prod_list (map (\<lambda>(i, d). if i = 1 \<or> i = length s - 1 then d else 1) (enumerate 0 s)) =
           s ! 1 * last s"
proof -
  obtain a b rest where s: "s = a # b # rest" and r: "rest \<noteq> []"
    using length_three_shape[OF assms] by auto
  have "prod_list (map (\<lambda>(i, d). if i = 1 \<or> i = 2 + length rest - 1 then d else 1) (enumerate 2 rest)) =
          last rest"
    using keep_last_prod[OF r, of 2] by simp
  then show ?thesis using r by (simp add: s eval_nat_numeral)
qed

text \<open>
  C5, as the program has it. \<open>reshape_for_broadcast\<close> raises an \<open>AssertionError\<close>
  exactly when \<open>x\<close> has fewer than two axes or the shape of \<open>freqs_cis\<close> is not
  \<open>(x.shape[1], x.shape[-1])\<close>. Otherwise, when \<open>x\<close> has at least three axes or its last
  axis has at most one element, it returns \<open>freqs_cis\<close> under the shape of \<open>x\<close> with every
  axis but axis 1 and the last replaced by 1; for an \<open>x\<close> of two axes whose last has two
  elements or more, the view raises the \<open>RuntimeError\<close> of the tensor library.
\<close>

theorem reshape_for_broadcast_cases:
  "(reshape_for_broadcast freqs_cis x = Inl AssertionError \<longleftrightarrow>
      length (shape x) < 2 \<or> shape freqs_cis \<noteq> [shape x ! 1, last (shape x)]) \<and>
   (2 \<le> length (shape x) \<and> shape freqs_cis = [shape x ! 1, last (shape x)] \<and>
    (3 \<le> length (shape x) \<or> last (shape x) \<le> 1) \<longrightarrow>
      reshape_for_broadcast freqs_cis x =
        Inr (freqs_cis\<lparr>shape := map (\<lambda>(i, d). if i = 1 \<or> i = length (shape x) - 1 then d else 1)
                                    (enumerate 0 (shape x))\<rparr>)) \<and>
   (length (shape x) = 2 \<and> shape freqs_cis = [shape x ! 1, last (shape x)] \<and> 2 \<le> last (shape x) \<longrightarrow>
      reshape_for_broadcast freqs_cis x = Inl RuntimeError)"
proof -
  let ?s = "map (\<lambda>(i, d). if i = 1 \<or> i = length (shape x) - 1 then d else 1) (enumerate 0 (shape x))"
  have body: "reshape_for_broadcast freqs_cis x =
      (if \<not> 1 < length (shape x) then Inl AssertionError
       else if shape freqs_cis \<noteq> [shape x ! 1, last (shape x)] then Inl AssertionError
       else if numel freqs_cis = prod_list ?s then Inr (freqs_cis\<lparr>shape := ?s\<rparr>)
       else Inl RuntimeError)"
    unfolding reshape_for_broadcast_def Let_def keep_axes_int reshape_explicit by (simp only: if_not_P not_not)
  have two: "prod_list ?s = last (shape x)" if l2: "length (shape x) = 2"
  proof -
    obtain a b where "shape x = [a, b]"
      using length_two_shape[OF l2] by auto
    then show ?thesis by simp
  qed
  have n: "numel freqs_cis = shape x ! 1 * last (shape x)"
    if "shape freqs_cis = [shape x ! 1, last (shape x)]"
    using that by (simp add: numel_def)
  have l1: "shape x ! 1 = last (shape x)" if l2: "length (shape x) = 2"
  proof -
    obtain a b where "shape x = [a, b]"
      using length_two_shape[OF l2] by auto
    then show ?thesis by simp
  qed
  have A: "reshape_for_broadcast freqs_cis x = Inl AssertionError \<longleftrightarrow>
      length (shape x) < 2 \<or> shape freqs_cis \<noteq> [shape x ! 1, last (shape x)]"
    unfolding body by auto
  have B: "reshape_for_broadcast freqs_cis x = Inr (freqs_cis\<lparr>shape := ?s\<rparr>)"
    if "2 \<le> length (shape x)" "shape freqs_cis = [shape x ! 1, last (shape x)]"
      "3 \<le> length (shape x) \<or> last (shape x) \<le> 1"
  proof (cases "3 \<le> length (shape x)")
    case True
    then show ?thesis unfolding body using that(2) n[OF that(2)] keep_axes_prod[OF True] by simp
  next
    case False
    then have l: "length (shape x) = 2" using that(1) by simp
    have "last (shape x) * last (shape x) = last (shape x)" using that(3) False by (cases "last (shape x)") auto
    then show ?thesis unfolding body using that(2) n[OF that(2)] two[OF l] l1[OF l] l by simp
  qed
  have C: "reshape_for_broadcast freqs_cis x = Inl RuntimeError"
    if l: "length (shape x) = 2" and f: "shape freqs_cis = [shape x ! 1, last (shape x)]"
      and b: "2 \<le> last (shape x)"
  proof -
    have "last (shape x) * last (shape x) \<noteq> last (shape x)" using b by simp
    then show ?thesis unfolding body using f n[OF f] two[OF l] l1[OF l] l by simp
  qed
  show ?thesis using A B C by blast
qed

theorem reshape_for_broadcast_cases_witness:
  "reshape_for_broadcast \<lparr>shape = [3, 2], dtype = Float32, data = [1, 2, 3, 4, 5, 6]\<rparr>
     \<lparr>shape = [1, 3, 2, 2], dtype = Float32, data = [1, 2, 3, 4, 5, 6, 7, 8, 9, 10, 11, 12]\<rparr> =
     Inr \<lparr>shape = [1, 3, 1, 2], dtype = Float32, data = [1, 2, 3, 4, 5, 6]\<rparr> \<and>
   reshape_for_broadcast \<lparr>shape = [3, 2], dtype = Float32, data = [1, 2, 3, 4, 5, 6]\<rparr>
     \<lparr>shape = [2], dtype = Float32, data = [1, 2]\<rparr> = Inl AssertionError \<and>
   reshape_for_broadcast \<lparr>shape = [2, 2], dtype = Float32, data = [1, 2, 3, 4]\<rparr>
     \<lparr>shape = [3, 2], dtype = Float32, data = [1, 2, 3, 4, 5, 6]\<rparr> = Inl RuntimeError"
  using reshape_for_broadcast_cases[of "\<lparr>shape = [3, 2], dtype = Float32, data = [1, 2, 3, 4, 5, 6]\<rparr>"
      "\<lparr>shape = [1, 3, 2, 2], dtype = Float32, data = [1, 2, 3, 4, 5, 6, 7, 8, 9, 10, 11, 12]\<rparr>"]
    reshape_for_broadcast_cases[of "\<lparr>shape = [3, 2], dtype = Float32, data = [1, 2, 3, 4, 5, 6]\<rparr>"
      "\<lparr>shape = [2], dtype = Float32, data = [1, 2]\<rparr>"]
    reshape_for_broadcast_cases[of "\<lparr>shape = [2, 2], dtype = Float32, data = [1, 2, 3, 4]\<rparr>"
      "\<lparr>shape = [3, 2], dtype = Float32, data = [1, 2, 3, 4, 5, 6]\<rparr>"]
  by (simp add: enumerate_eq_zip upt_rec)

text \<open>
  The claim as the specification states it fails for a target of two axes: both
  assertions hold, and no view is returned.
\<close>

theorem reshape_for_broadcast_rank2_counterexample:
  "2 \<le> length (shape \<lparr>shape = [3, 2], dtype = Float32, data = [1, 2, 3, 4, 5, 6]\<rparr>) \<and>
   shape \<lparr>shape = [2, 2], dtype = Float32, data = [1, 2, 3, 4]\<rparr> =
     [shape \<lparr>shape = [3, 2], dtype = Float32, data = [1, 2, 3, 4, 5, 6]\<rparr> ! 1,
      last (shape \<lparr>shape = [3, 2], dtype = Float32, data = [1, 2, 3, 4, 5, 6]\<rparr>)] \<and>
   reshape_for_broadcast \<lparr>shape = [2, 2], dtype = Float32, data = [1, 2, 3, 4]\<rparr>
     \<lparr>shape = [3, 2], dtype = Float32, data = [1, 2, 3, 4, 5, 6]\<rparr> = Inl RuntimeError"
  by (simp add: reshape_for_broadcast_def reshape_def infer_size_def numel_def Let_def)

section \<open>What a returning call went through\<close>

lemma ebind_eq_Inl: "ebind m f = Inl e \<longleftrightarrow> m = Inl e \<or> (\<exists>x. m = Inr x \<and> f x = Inl e)"
  by (cases m) simp_all

lemma broadcast_rev_error: "broadcast_rev xs ys = Inl e \<Longrightarrow> e = RuntimeError"
  by (induction xs ys rule: broadcast_rev.induct) (auto simp add: ebind_eq_Inl split: if_splits)

lemma tensor_binop_error: "tensor_binop f a b = Inl e \<Longrightarrow> e = RuntimeError"
  by (auto simp add: tensor_binop_def broadcast_shapes_def ebind_eq_Inl dest: broadcast_rev_error)

lemma tensor_binop_result:
  "tensor_binop f a b = Inr r \<Longrightarrow>
   broadcast_shapes (shape a) (shape b) = Inr (shape r) \<and> dtype r = promote_types (dtype a) (dtype b)"
  by (auto simp add: tensor_binop_def ebind_eq_Inr)

lemma broadcast_shapes_same: "broadcast_shapes s s = Inr s"
proof -
  have "broadcast_rev xs xs = Inr xs" for xs by (induction xs) simp_all
  then show ?thesis by (simp add: broadcast_shapes_def)
qed

lemma split_pairs_result:
  "split_pairs t = Inr (re, im) \<Longrightarrow>
   shape t \<noteq> [] \<and> 0 < prod_list (butlast (shape t)) \<and> even (last (shape t)) \<and>
   shape re = butlast (shape t) @ [last (shape t) div 2] \<and> shape im = shape re \<and>
   dtype re = Float32 \<and> dtype im = Float32"
  by (auto simp add: split_pairs_eq split: if_splits)

lemma split_pairs_error: "split_pairs t = Inl e \<Longrightarrow> e = RuntimeError"
  by (auto simp add: split_pairs_eq split: if_splits)

lemma rope_angles_result:
  "rope_angles S head_dim theta = Inr (sn, cs) \<Longrightarrow>
   0 \<le> head_dim \<and> shape sn = [1, S, 1, nat ((head_dim + 1) div 2)] \<and>
   shape cs = [1, S, 1, nat ((head_dim + 1) div 2)] \<and> dtype sn = Float32 \<and> dtype cs = Float32"
  using rope_angles_ok[of head_dim S theta] rope_angles_neg[of head_dim S theta]
  by (cases "0 \<le> head_dim") auto

lemma rope_angles_error: "rope_angles S head_dim theta = Inl e \<Longrightarrow> e = RuntimeError"
  using rope_angles_ok[of head_dim S theta] rope_angles_neg[of head_dim S theta]
  by (cases "0 \<le> head_dim") auto

lemma rotate_pairs_result:
  assumes "rotate_pairs re im sn cs = Inr (rr, ri)" "shape im = shape re" "shape cs = shape sn"
    "dtype re = Float32" "dtype im = Float32" "dtype sn = Float32" "dtype cs = Float32"
  shows "broadcast_shapes (shape re) (shape sn) = Inr (shape rr) \<and> shape ri = shape rr \<and>
         dtype rr = Float32 \<and> dtype ri = Float32"
proof -
  have pf: "promote_types Float32 Float32 = Float32" by (simp add: promote_types_def)
  from assms(1) obtain rc isn rs ic where
    x: "tmul re cs = Inr rc" "tmul im sn = Inr isn" "tsub rc isn = Inr rr"
       "tmul re sn = Inr rs" "tmul im cs = Inr ic" "tadd rs ic = Inr ri"
    by (auto simp add: rotate_pairs_def ebind_eq_Inr)
  note y = x[unfolded tmul_def tsub_def tadd_def, THEN tensor_binop_result]
  have 1: "broadcast_shapes (shape re) (shape sn) = Inr (shape rc)" "shape isn = shape rc"
    "shape rs = shape rc" "shape ic = shape rc"
    using y(1,2,4,5) assms(2,3) by simp_all
  have 2: "shape rr = shape rc" "shape ri = shape rc"
    using y(3,6) 1 by (simp_all add: broadcast_shapes_same)
  have 3: "dtype rr = Float32" "dtype ri = Float32"
    using y assms(4-7) by (simp_all add: pf)
  show ?thesis using 1 2 3 by simp
qed

lemma rotate_pairs_error: "rotate_pairs re im sn cs = Inl e \<Longrightarrow> e = RuntimeError"
  by (auto simp add: rotate_pairs_def ebind_eq_Inl tmul_def tsub_def tadd_def dest: tensor_binop_error)

lemma recombine_result:
  "recombine rr ri shp = Inr out \<Longrightarrow>
   shape out = shp \<and> dtype out = promote_types (dtype rr) (dtype ri) \<and>
   shape ri = shape rr \<and> prod_list (shape rr) * 2 = prod_list shp"
  by (auto simp add: recombine_eq split: if_splits)

lemma recombine_error: "recombine rr ri shp = Inl e \<Longrightarrow> e = RuntimeError"
  by (auto simp add: recombine_eq split: if_splits)

lemma apply_rotary_emb_returns:
  assumes "apply_rotary_emb query key head_dim max_seq_len theta = Inr (qo, ko)"
  shows "\<exists>B S H D qre qim kre kim sn cs qrr qri krr kri.
           shape query = [B, S, H, D] \<and>
           split_pairs query = Inr (qre, qim) \<and> split_pairs key = Inr (kre, kim) \<and>
           rope_angles S head_dim theta = Inr (sn, cs) \<and>
           rotate_pairs qre qim sn cs = Inr (qrr, qri) \<and>
           rotate_pairs kre kim sn cs = Inr (krr, kri) \<and>
           recombine qrr qri (shape query) = Inr qo \<and>
           recombine krr kri (shape key) = Inr ko"
  using assms
  by (auto simp add: apply_rotary_emb_stages ebind_eq_Inr split: list.splits)

lemma apply_rotary_emb_error:
  assumes "shape query = [B, S, H, D]"
    and "apply_rotary_emb query key head_dim max_seq_len theta = Inl e"
  shows "e = RuntimeError"
  using assms(2) unfolding apply_rotary_emb_stages assms(1)
  by (auto simp add: ebind_eq_Inl
      dest: split_pairs_error rope_angles_error rotate_pairs_error recombine_error)

section \<open>Shapes and element types of the outputs\<close>

text \<open>
  C2. Whenever \<open>apply_rotary_emb\<close> returns, the query output has the shape of the query
  and the key output the shape of the key; and it does return on the inputs the
  specification calls valid: a query of shape \<open>(B, S, H, D)\<close> and a key of shape
  \<open>(B2, S, H2, D)\<close> with \<open>D\<close> even, \<open>head_dim = D\<close> and no empty axis before the last.
\<close>

theorem apply_rotary_emb_shapes:
  "(apply_rotary_emb query key head_dim max_seq_len theta = Inr (qo, ko) \<longrightarrow>
      shape qo = shape query \<and> shape ko = shape key) \<and>
   (shape query = [B, S, H, D] \<and> shape key = [B2, S, H2, D] \<and> even D \<and> head_dim = int D \<and>
    0 < B \<and> 0 < S \<and> 0 < H \<and> 0 < B2 \<and> 0 < H2 \<longrightarrow>
      (\<exists>qo' ko'. apply_rotary_emb query key head_dim max_seq_len theta = Inr (qo', ko') \<and>
         shape qo' = shape query \<and> shape ko' = shape key))"
proof (intro conjI impI)
  assume "apply_rotary_emb query key head_dim max_seq_len theta = Inr (qo, ko)"
  from apply_rotary_emb_returns[OF this] obtain qrr qri krr kri where
    "recombine qrr qri (shape query) = Inr qo" "recombine krr kri (shape key) = Inr ko"
    by auto
  then show "shape qo = shape query" "shape ko = shape key"
    by (simp_all add: recombine_result)
next
  assume a: "shape query = [B, S, H, D] \<and> shape key = [B2, S, H2, D] \<and> even D \<and> head_dim = int D \<and>
    0 < B \<and> 0 < S \<and> 0 < H \<and> 0 < B2 \<and> 0 < H2"
  then have "\<exists>qo ko. apply_rotary_emb query key (int D) max_seq_len theta = Inr (qo, ko) \<and>
           shape qo = [B, S, H, D] \<and> shape ko = [B2, S, H2, D] \<and>
           dtype qo = Float32 \<and> dtype ko = Float32 \<and> wf_tensor qo \<and> wf_tensor ko \<and>
           (\<forall>b p h i. b < B \<and> p < S \<and> h < H \<and> i < D div 2 \<longrightarrow>
              (item qo [b, p, h, 2 * i], item qo [b, p, h, 2 * i + 1]) =
                rotate2d (real p * theta powr (- (2 * real i / real D)))
                  (item query [b, p, h, 2 * i], item query [b, p, h, 2 * i + 1])) \<and>
           (\<forall>b p h i. b < B2 \<and> p < S \<and> h < H2 \<and> i < D div 2 \<longrightarrow>
              (item ko [b, p, h, 2 * i], item ko [b, p, h, 2 * i + 1]) =
                rotate2d (real p * theta powr (- (2 * real i / real D)))
                  (item key [b, p, h, 2 * i], item key [b, p, h, 2 * i + 1]))"
    by (intro kernel_pairs) simp_all
  then show "\<exists>qo' ko'. apply_rotary_emb query key head_dim max_seq_len theta = Inr (qo', ko') \<and>
         shape qo' = shape query \<and> shape ko' = shape key"
  proof (elim exE conjE)
    fix qo ko
    assume "apply_rotary_emb query key (int D) max_seq_len theta = Inr (qo, ko)"
      "shape qo = [B, S, H, D]" "shape ko = [B2, S, H2, D]"
    then show ?thesis using a by (intro exI[of _ qo] exI[of _ ko]) simp
  qed
qed

theorem apply_rotary_emb_shapes_witness:
  "\<exists>qo ko. apply_rotary_emb \<lparr>shape = [1, 2, 1, 2], dtype = Float32, data = [1, 0, 1, 0]\<rparr>
             \<lparr>shape = [2, 2, 1, 2], dtype = Float32, data = [0, 1, 0, 1, 0, 1, 0, 1]\<rparr> 2 8 10000 =
             Inr (qo, ko) \<and>
           shape qo = [1, 2, 1, 2] \<and> shape ko = [2, 2, 1, 2]"
proof -
  let ?q = "\<lparr>shape = [1, 2, 1, 2], dtype = Float32, data = [1, 0, 1, 0 :: real]\<rparr>"
  let ?k = "\<lparr>shape = [2, 2, 1, 2], dtype = Float32, data = [0, 1, 0, 1, 0, 1, 0, 1 :: real]\<rparr>"
  have "\<exists>qo' ko'. apply_rotary_emb ?q ?k 2 8 10000 = Inr (qo', ko') \<and>
         shape qo' = shape ?q \<and> shape ko' = shape ?k"
    using apply_rotary_emb_shapes[of ?q ?k 2 8 10000 _ _ 1 2 1 2 2 1, THEN conjunct2] by simp
  then show ?thesis
  proof (elim exE conjE)
    fix qo ko
    assume r: "apply_rotary_emb ?q ?k 2 8 10000 = Inr (qo, ko)"
    then have "shape qo = shape ?q \<and> shape ko = shape ?k"
      using apply_rotary_emb_shapes[of ?q ?k 2 8 10000 qo ko, THEN conjunct1] by simp
    then show ?thesis using r by (intro exI[of _ qo] exI[of _ ko]) simp
  qed
qed

text \<open>
  C10. Whenever \<open>apply_rotary_emb\<close> returns, both outputs have the element type
  \<open>Float32\<close>, whatever the element types of the query and of the key: the inputs are
  converted by \<open>.float()\<close> and nothing converts the results back.
\<close>

theorem apply_rotary_emb_dtype:
  assumes "apply_rotary_emb query key head_dim max_seq_len theta = Inr (qo, ko)"
  shows "dtype qo = Float32 \<and> dtype ko = Float32"
proof -
  from apply_rotary_emb_returns[OF assms] obtain S qre qim kre kim sn cs qrr qri krr kri where
    x: "split_pairs query = Inr (qre, qim)" "split_pairs key = Inr (kre, kim)"
       "rope_angles S head_dim theta = Inr (sn, cs)"
       "rotate_pairs qre qim sn cs = Inr (qrr, qri)" "rotate_pairs kre kim sn cs = Inr (krr, kri)"
       "recombine qrr qri (shape query) = Inr qo" "recombine krr kri (shape key) = Inr ko"
    by auto
  note q = split_pairs_result[OF x(1)] and k = split_pairs_result[OF x(2)]
    and a = rope_angles_result[OF x(3)]
  have qr: "dtype qrr = Float32" "dtype qri = Float32"
    using rotate_pairs_result[OF x(4)] q a by simp_all
  have kr: "dtype krr = Float32" "dtype kri = Float32"
    using rotate_pairs_result[OF x(5)] k a by simp_all
  show ?thesis
    using recombine_result[OF x(6)] recombine_result[OF x(7)] qr kr
    by (simp add: promote_types_def)
qed

theorem apply_rotary_emb_dtype_witness:
  "\<exists>qo ko. apply_rotary_emb \<lparr>shape = [1, 2, 1, 2], dtype = Float16, data = [1, 0, 1, 0]\<rparr>
             \<lparr>shape = [1, 2, 1, 2], dtype = Int64, data = [0, 1, 0, 1]\<rparr> 2 8 10000 = Inr (qo, ko) \<and>
           dtype qo = Float32 \<and> dtype ko = Float32"
proof -
  let ?q = "\<lparr>shape = [1, 2, 1, 2], dtype = Float16, data = [1, 0, 1, 0 :: real]\<rparr>"
  let ?k = "\<lparr>shape = [1, 2, 1, 2], dtype = Int64, data = [0, 1, 0, 1 :: real]\<rparr>"
  have "\<exists>qo ko. apply_rotary_emb ?q ?k (int 2) 8 10000 = Inr (qo, ko) \<and>
           shape qo = [1, 2, 1, 2] \<and> shape ko = [1, 2, 1, 2] \<and>
           dtype qo = Float32 \<and> dtype ko = Float32 \<and> wf_tensor qo \<and> wf_tensor ko \<and>
           (\<forall>b p h i. b < 1 \<and> p < 2 \<and> h < 1 \<and> i < 2 div 2 \<longrightarrow>
              (item qo [b, p, h, 2 * i], item qo [b, p, h, 2 * i + 1]) =
                rotate2d (real p * 10000 powr (- (2 * real i / real 2)))
                  (item ?q [b, p, h, 2 * i], item ?q [b, p, h, 2 * i + 1])) \<and>
           (\<forall>b p h i. b < 1 \<and> p < 2 \<and> h < 1 \<and> i < 2 div 2 \<longrightarrow>
              (item ko [b, p, h, 2 * i], item ko [b, p, h, 2 * i + 1]) =
                rotate2d (real p * 10000 powr (- (2 * real i / real 2)))
                  (item ?k [b, p, h, 2 * i], item ?k [b, p, h, 2 * i + 1]))"
    by (intro kernel_pairs) simp_all
  then show ?thesis
  proof (elim exE conjE)
    fix qo ko
    assume "apply_rotary_emb ?q ?k (int 2) 8 10000 = Inr (qo, ko)"
    then have r: "apply_rotary_emb ?q ?k 2 8 10000 = Inr (qo, ko)" by simp
    from apply_rotary_emb_dtype[OF r] r show ?thesis
      by (intro exI[of _ qo] exI[of _ ko]) simp
  qed
qed

section \<open>Failing calls\<close>

lemma broadcast_shapes_4d:
  "broadcast_shapes [B, S, H, M] [1, S', 1, n] =
     (if (M = n \<or> M = 1 \<or> n = 1) \<and> (S = S' \<or> S = 1 \<or> S' = 1)
      then Inr [B, if S = 1 then S' else S, H, if M = 1 then n else M]
      else Inl RuntimeError)"
  by (simp add: broadcast_shapes_def)

lemma returns_half_dim:
  assumes sp: "split_pairs t = Inr (re, im)" and sh: "shape t = [B, S', H, D]"
    and an: "shape sn = [1, S, 1, n]" "shape cs = [1, S, 1, n]" "dtype sn = Float32" "dtype cs = Float32"
    and ro: "rotate_pairs re im sn cs = Inr (rr, ri)"
    and rc: "recombine rr ri (shape t) = Inr out"
  shows "even D \<and> (D div 2 = n \<or> n = 1)"
proof -
  define M where "M = D div 2"
  note s = split_pairs_result[OF sp, unfolded sh]
  have pos: "0 < B" "0 < S'" "0 < H" and ev: "even D" using s by simp_all
  have D: "D = 2 * M" using ev by (simp add: M_def)
  have re: "shape re = [B, S', H, M]" using s by (simp add: M_def)
  have b: "broadcast_shapes [B, S', H, M] [1, S, 1, n] = Inr (shape rr)"
    using rotate_pairs_result[OF ro] s an re by simp
  define S1 where "S1 = (if S' = 1 then S else S')"
  define M1 where "M1 = (if M = 1 then n else M)"
  from b have c: "M = n \<or> M = 1 \<or> n = 1" and r: "shape rr = [B, S1, H, M1]"
    unfolding broadcast_shapes_4d S1_def M1_def by (simp_all split: if_splits)
  have "prod_list (shape rr) * 2 = prod_list [B, S', H, D]"
    using recombine_result[OF rc] sh by simp
  then have "(B * H) * (S1 * M1) = (B * H) * (S' * M)"
    unfolding r D by (simp add: mult_ac)
  then have e: "S1 * M1 = S' * M" using pos by simp
  have "M = n \<or> n = 1"
  proof (cases "M = 1")
    case False
    then show ?thesis using c by simp
  next
    case True
    then have "S1 * n = S'" using e by (simp add: M1_def)
    then have "n = 1" using pos by (cases "S' = 1") (simp_all add: S1_def)
    then show ?thesis by simp
  qed
  then show ?thesis using ev by (simp add: M_def)
qed

lemma apply_rotary_emb_returns_conditions:
  assumes "apply_rotary_emb query key head_dim max_seq_len theta = Inr (qo, ko)"
    and "shape query = [B, S, H, D]" "shape key = [B2, S2, H2, D2]"
  shows "0 \<le> head_dim \<and> even D \<and> even D2 \<and>
         (D div 2 = nat ((head_dim + 1) div 2) \<or> nat ((head_dim + 1) div 2) = 1) \<and>
         (D2 div 2 = nat ((head_dim + 1) div 2) \<or> nat ((head_dim + 1) div 2) = 1)"
proof -
  from apply_rotary_emb_returns[OF assms(1)] assms(2)
  obtain qre qim kre kim sn cs qrr qri krr kri where
    x: "split_pairs query = Inr (qre, qim)" "split_pairs key = Inr (kre, kim)"
       "rope_angles S head_dim theta = Inr (sn, cs)"
       "rotate_pairs qre qim sn cs = Inr (qrr, qri)" "rotate_pairs kre kim sn cs = Inr (krr, kri)"
       "recombine qrr qri (shape query) = Inr qo" "recombine krr kri (shape key) = Inr ko"
    by auto
  note a = rope_angles_result[OF x(3)]
  have an: "shape sn = [1, S, 1, nat ((head_dim + 1) div 2)]"
    "shape cs = [1, S, 1, nat ((head_dim + 1) div 2)]" "dtype sn = Float32" "dtype cs = Float32"
    using a by simp_all
  show ?thesis
    using returns_half_dim[OF x(1) assms(2) an x(4) x(6)]
      returns_half_dim[OF x(2) assms(3) an x(5) x(7)] a
    by simp
qed

text \<open>
  C8, as the program has it. On a query and a key of four axes, \<open>apply_rotary_emb\<close>
  raises the \<open>RuntimeError\<close> of the tensor library, and returns no tensor, whenever the
  last axis of the query or of the key is odd (so whenever it equals an odd \<open>head_dim\<close>),
  whenever \<open>head_dim\<close> is negative, and whenever the number of frequencies
  \<open>(head_dim + 1) div 2\<close> is neither 1 nor half the last axis of the query and of the key.
\<close>

theorem apply_rotary_emb_fails:
  assumes "shape query = [B, S, H, D]" "shape key = [B2, S2, H2, D2]"
    and "odd D \<or> odd D2 \<or> head_dim < 0 \<or>
         (nat ((head_dim + 1) div 2) \<noteq> 1 \<and>
          (D div 2 \<noteq> nat ((head_dim + 1) div 2) \<or> D2 div 2 \<noteq> nat ((head_dim + 1) div 2)))"
  shows "apply_rotary_emb query key head_dim max_seq_len theta = Inl RuntimeError"
proof (cases "apply_rotary_emb query key head_dim max_seq_len theta")
  case (Inl e)
  then show ?thesis using apply_rotary_emb_error[OF assms(1) Inl] by simp
next
  case (Inr r)
  obtain qo ko where "r = (qo, ko)" by (cases r)
  then have "apply_rotary_emb query key head_dim max_seq_len theta = Inr (qo, ko)" using Inr by simp
  from apply_rotary_emb_returns_conditions[OF this assms(1,2)] assms(3)
  show ?thesis by auto
qed

theorem apply_rotary_emb_fails_witness:
  "apply_rotary_emb \<lparr>shape = [1, 1, 1, 3], dtype = Float32, data = [1, 2, 3]\<rparr>
     \<lparr>shape = [1, 1, 1, 3], dtype = Float32, data = [4, 5, 6]\<rparr> 3 8 10000 = Inl RuntimeError \<and>
   apply_rotary_emb \<lparr>shape = [1, 1, 1, 4], dtype = Float32, data = [1, 2, 3, 4]\<rparr>
     \<lparr>shape = [1, 1, 1, 4], dtype = Float32, data = [5, 6, 7, 8]\<rparr> 8 8 10000 = Inl RuntimeError"
  using apply_rotary_emb_fails[of "\<lparr>shape = [1, 1, 1, 3], dtype = Float32, data = [1, 2, 3]\<rparr>" 1 1 1 3
      "\<lparr>shape = [1, 1, 1, 3], dtype = Float32, data = [4, 5, 6]\<rparr>" 1 1 1 3 3 8 10000]
    apply_rotary_emb_fails[of "\<lparr>shape = [1, 1, 1, 4], dtype = Float32, data = [1, 2, 3, 4]\<rparr>" 1 1 1 4
      "\<lparr>shape = [1, 1, 1, 4], dtype = Float32, data = [5, 6, 7, 8]\<rparr>" 1 1 1 4 8 8 10000]
  by simp

text \<open>
  The claim as the specification states it fails: with the odd \<open>head_dim = 1\<close>, which
  also differs from the last axis 2 of the query and of the key, the call returns (the
  single frequency is broadcast over the pairs).
\<close>

theorem apply_rotary_emb_odd_head_dim_counterexample:
  "apply_rotary_emb \<lparr>shape = [1, 1, 1, 2], dtype = Float32, data = [3, 4]\<rparr>
     \<lparr>shape = [1, 1, 1, 2], dtype = Float32, data = [5, 6]\<rparr> 1 8 10000 =
   Inr (\<lparr>shape = [1, 1, 1, 2], dtype = Float32, data = [3, 4]\<rparr>,
        \<lparr>shape = [1, 1, 1, 2], dtype = Float32, data = [5, 6]\<rparr>)"
proof -
  let ?q = "\<lparr>shape = [1, 1, 1, 2], dtype = Float32, data = [3, 4 :: real]\<rparr>"
  let ?k = "\<lparr>shape = [1, 1, 1, 2], dtype = Float32, data = [5, 6 :: real]\<rparr>"
  have two: "j = 2 * 0 \<or> j = 2 * 0 + 1" if "j < 2" for j :: nat using that by auto
  have "\<exists>qo ko. apply_rotary_emb ?q ?k 1 8 10000 = Inr (qo, ko) \<and>
           shape qo = shape ?q \<and> shape ko = shape ?k \<and>
           dtype qo = Float32 \<and> dtype ko = Float32 \<and> wf_tensor qo \<and> wf_tensor ko \<and>
           (\<forall>b p h i. b < 1 \<and> p < 1 \<and> h < 1 \<and> i < 1 \<longrightarrow>
              (item qo [b, p, h, 2 * i], item qo [b, p, h, 2 * i + 1]) =
                rotate2d (real p * (1 / 10000 powr (real (2 * i) / real_of_int 1)))
                  (item ?q [b, p, h, 2 * i], item ?q [b, p, h, 2 * i + 1])) \<and>
           (\<forall>b p h i. b < 1 \<and> p < 1 \<and> h < 1 \<and> i < 1 \<longrightarrow>
              (item ko [b, p, h, 2 * i], item ko [b, p, h, 2 * i + 1]) =
                rotate2d (real p * (1 / 10000 powr (real (2 * i) / real_of_int 1)))
                  (item ?k [b, p, h, 2 * i], item ?k [b, p, h, 2 * i + 1]))"
    by (rule kernel_4d) simp_all
  then show ?thesis
  proof (elim exE conjE)
    fix qo ko
    assume r: "apply_rotary_emb ?q ?k 1 8 10000 = Inr (qo, ko)"
      and s: "shape qo = shape ?q" "shape ko = shape ?k"
      and d: "dtype qo = Float32" "dtype ko = Float32"
      and w: "wf_tensor qo" "wf_tensor ko"
      and q: "\<forall>b p h i. b < 1 \<and> p < 1 \<and> h < 1 \<and> i < 1 \<longrightarrow>
              (item qo [b, p, h, 2 * i], item qo [b, p, h, 2 * i + 1]) =
                rotate2d (real p * (1 / 10000 powr (real (2 * i) / real_of_int 1)))
                  (item ?q [b, p, h, 2 * i], item ?q [b, p, h, 2 * i + 1])"
      and k: "\<forall>b p h i. b < 1 \<and> p < 1 \<and> h < 1 \<and> i < 1 \<longrightarrow>
              (item ko [b, p, h, 2 * i], item ko [b, p, h, 2 * i + 1]) =
                rotate2d (real p * (1 / 10000 powr (real (2 * i) / real_of_int 1)))
                  (item ?k [b, p, h, 2 * i], item ?k [b, p, h, 2 * i + 1])"
    have qe: "item qo [b, p, h, j] = item ?q [b, p, h, j]"
      if "b < 1" "p < 1" "h < 1" "j < 2" for b p h j
      using q[rule_format, of b p h 0] that two[OF that(4)] by (auto simp add: rotate2d_zero)
    have ke: "item ko [b, p, h, j] = item ?k [b, p, h, j]"
      if "b < 1" "p < 1" "h < 1" "j < 2" for b p h j
      using k[rule_format, of b p h 0] that two[OF that(4)] by (auto simp add: rotate2d_zero)
    have "data qo = data ?q"
      by (rule tensor_ext_4d[where B = 1 and S = 1 and H = 1 and D = 2])
        (use s w qe in \<open>simp_all add: wf_tensor_def\<close>)
    then have "qo = ?q" using s d by (intro tensor.equality) simp_all
    moreover have "data ko = data ?k"
      by (rule tensor_ext_4d[where B = 1 and S = 1 and H = 1 and D = 2])
        (use s w ke in \<open>simp_all add: wf_tensor_def\<close>)
    then have "ko = ?k" using s d by (intro tensor.equality) simp_all
    ultimately show ?thesis using r by simp
  qed
qed

end
